theory Spec2Isabelle
  imports Complex_Main "HOL-Library.Word"
begin

section \<open>Data model\<close>

text \<open>
  The C sources pass one \<open>input\<close> structure to every routine. Its declaration
  (read_input.h) is not among the sources, so the record below lists the fields that the
  routines modelled here read or write. The field \<open>theory\<close> of the source is called
  \<open>theory_str\<close>, because \<open>theory\<close> is a reserved word.

  The record is polymorphic in the representation of C \<open>int\<close> (\<open>'i\<close>) and of C
  \<open>double\<close> (\<open>'d\<close>). The numerical routines are modelled over \<open>int\<close> and
  \<open>real\<close>: a \<open>double\<close> is read as the real number it denotes, infinities and NaN are
  not modelled, and a division by zero has HOL's value \<open>0\<close>. Rounding is modelled where
  the number of grid points and the grid points themselves are computed (the
  wave-vector grid); elsewhere the arithmetic is exact. The binary file routines are
  modelled over the machine representation, a 32-bit word and the 64-bit pattern of a
  double.
\<close>

record ('i, 'd) input =
  Theta :: 'd
  rs :: 'd
  mu :: 'd
  mu_lo :: 'd
  mu_hi :: 'd
  dx :: 'd
  xmax :: 'd
  nx :: 'i
  nl :: 'i
  nIter :: 'i
  err_min_iter :: 'd
  a_mix :: 'd
  theory_str :: string
  phi_file :: string
  nW :: 'i
  dyn_dW :: 'd
  dyn_Wmax :: 'd
  dyn_xtarget :: 'd
  dyn_adr_file :: string
  qstls_iet_static :: 'i

type_synonym rinput = "(int, real) input"

section \<open>Static structure factor and local field correction (stls.c, rpa.cpp)\<close>

text \<open>\<open>int idx2(int xx, int yy, int x_size)\<close>; every index the loops pass is non-negative.\<close>

definition idx2 :: "nat \<Rightarrow> nat \<Rightarrow> nat \<Rightarrow> nat" where
  "idx2 xx yy x_size = (yy * x_size) + xx"

text \<open>\<open>pow(4.0/(9.0*M_PI), 1.0/3.0)\<close>, the local \<open>lambda\<close> of the C routines. The C++
  constant \<open>lambda\<close> used by \<open>Ssf::get\<close> is declared outside the sources; it is taken to be
  the same number, as the specification defines it.\<close>

definition lambda_c :: real where
  "lambda_c = (4 / (9 * pi)) powr (1 / 3)"

text \<open>The inner loop of \<open>compute_ssf\<close> over the Matsubara index: one summand, and the
  accumulation \<open>BB += BB_tmp\<close>.\<close>

definition ssf_BB_tmp :: "real list \<Rightarrow> real list \<Rightarrow> real list \<Rightarrow> rinput \<Rightarrow> nat \<Rightarrow> nat \<Rightarrow> real" where
  "ssf_BB_tmp GG phi xx inp ii ll =
     (let pilambda = pi * lambda_c;
          ff = 4 * lambda_c * lambda_c * rs inp;
          xx2 = xx ! ii * xx ! ii;
          phixl = phi ! idx2 ii ll (nat (nx inp));
          BB_tmp = phixl * phixl / (pilambda * xx2 + ff * (1 - GG ! ii) * phixl)
      in if ll > 0 then BB_tmp * 2 else BB_tmp)"

definition ssf_BB :: "real list \<Rightarrow> real list \<Rightarrow> real list \<Rightarrow> rinput \<Rightarrow> nat \<Rightarrow> real" where
  "ssf_BB GG phi xx inp ii =
     foldl (\<lambda>BB ll. BB + ssf_BB_tmp GG phi xx inp ii ll) 0 [0..<nat (nl inp)]"

definition ssf_point :: "real list \<Rightarrow> real list \<Rightarrow> real list \<Rightarrow> real list \<Rightarrow> rinput \<Rightarrow> nat \<Rightarrow> real" where
  "ssf_point SSHF GG phi xx inp ii =
     (let ff = 4 * lambda_c * lambda_c * rs inp;
          ff3_2T = 3 * Theta inp * ff / 2
      in if xx ! ii > 0
         then SSHF ! ii - ff3_2T * (1 - GG ! ii) * ssf_BB GG phi xx inp ii
         else 0)"

text \<open>\<open>compute_ssf\<close> writes \<open>SS[ii]\<close> for every \<open>ii < nx\<close>; the model returns the
  array written.\<close>

definition compute_ssf :: "real list \<Rightarrow> real list \<Rightarrow> real list \<Rightarrow> real list \<Rightarrow> rinput \<Rightarrow> real list" where
  "compute_ssf SSHF GG phi xx inp =
     map (ssf_point SSHF GG phi xx inp) [0..<nat (nx inp)]"

datatype cxx_error = AssertionFailed | RuntimeError

text \<open>\<open>Ssf::get\<close> of the C++ code: the members are passed as arguments, and \<open>idr\<close> is
  the row of the ideal density response for this wave-vector.\<close>

definition Ssf_fact4 :: "real \<Rightarrow> real \<Rightarrow> real \<Rightarrow> real list \<Rightarrow> nat \<Rightarrow> real" where
  "Ssf_fact4 x r slfc_v idr l =
     (let fact1 = 4 * lambda_c * r / pi;
          x2 = x * x;
          fact3 = 1 + fact1 / x2 * (1 - slfc_v) * idr ! l;
          fact4 = idr ! l * idr ! l / fact3
      in if l > 0 then fact4 * 2 else fact4)"

definition Ssf_get :: "real \<Rightarrow> real \<Rightarrow> real \<Rightarrow> real \<Rightarrow> real \<Rightarrow> nat \<Rightarrow> real list \<Rightarrow> cxx_error + real" where
  "Ssf_get x Th r ssfHF_v slfc_v n idr =
     (if \<not> Th > 0 then Inl AssertionFailed
      else if r = 0 then Inr ssfHF_v
      else if x = 0 then Inr 0
      else
        let fact1 = 4 * lambda_c * r / pi;
            x2 = x * x;
            fact2 = foldl (\<lambda>acc l. acc + Ssf_fact4 x r slfc_v idr l) 0 [0..<n]
        in Inr (ssfHF_v - 1.5 * fact1 / x2 * Th * (1 - slfc_v) * fact2))"

text \<open>The Hartree-Fock integrands: \<open>ssfHF\<close> of stls.c and \<open>SsfHF::integrand\<close> of
  rpa.cpp.\<close>

definition ssfHF :: "real \<Rightarrow> real \<Rightarrow> rinput \<Rightarrow> real" where
  "ssfHF yy xx inp =
     (let yy2 = yy * yy; ypx = yy + xx; ymx = yy - xx
      in if xx > 0
         then - 3 * Theta inp / (4 * xx) * yy / (exp (yy2 / Theta inp - mu inp) + 1)
              * ln ((1 + exp (mu inp - ymx * ymx / Theta inp))
                    / (1 + exp (mu inp - ypx * ypx / Theta inp)))
         else - 3 / 2 * yy2 / (1 + cosh (yy2 / Theta inp - mu inp)))"

definition SsfHF_integrand :: "real \<Rightarrow> real \<Rightarrow> real \<Rightarrow> real \<Rightarrow> real" where
  "SsfHF_integrand x Th m y =
     (let y2 = y * y; ypx = y + x; ymx = y - x
      in if x > 0
         then - 3 * Th / (4 * x) * y / (exp (y2 / Th - m) + 1)
              * ln ((1 + exp (m - ymx * ymx / Th)) / (1 + exp (m - ypx * ypx / Th)))
         else - 3 * y2 / ((1 + exp (y2 / Th - m)) * (1 + exp (y2 / Th - m))))"

text \<open>The STLS closure kernel \<open>slfc\<close> and the midpoint-rule loop \<open>compute_slfc\<close>.\<close>

definition slfc :: "real \<Rightarrow> real \<Rightarrow> real \<Rightarrow> real" where
  "slfc yy xx SS =
     (let yy2 = yy * yy; xx2 = xx * xx
      in if xx > 0 \<and> yy > 0
         then if xx > yy
              then - 3 / 4 * yy2 * (SS - 1)
                   * (1 + (xx2 - yy2) / (2 * xx * yy) * ln ((xx + yy) / (xx - yy)))
              else if xx < yy
              then - 3 / 4 * yy2 * (SS - 1)
                   * (1 + (xx2 - yy2) / (2 * xx * yy) * ln ((xx + yy) / (yy - xx)))
              else yy2 * (SS - 1)
         else 0)"

definition slfc_point :: "real list \<Rightarrow> real list \<Rightarrow> rinput \<Rightarrow> nat \<Rightarrow> real" where
  "slfc_point SS xx inp ii =
     foldl (\<lambda>G jj. G + slfc (xx ! jj) (xx ! ii) (SS ! jj)) 0 [0..<nat (nx inp - 1)] * dx inp"

definition compute_slfc :: "real list \<Rightarrow> real list \<Rightarrow> rinput \<Rightarrow> real list" where
  "compute_slfc SS xx inp = map (slfc_point SS xx inp) [0..<nat (nx inp)]"

text \<open>\<open>Rpa::computeSlfc\<close>: \<open>for (auto& s : slfc) { s = 0; }\<close>.\<close>

definition Rpa_computeSlfc :: "real list \<Rightarrow> real list" where
  "Rpa_computeSlfc slfc_arr = map (\<lambda>s. 0) slfc_arr"

section \<open>Wave-vector grid (stls.c, read_input.c, rpa.cpp)\<close>

text \<open>
  The number of grid points is the floor of a quotient of doubles and the grid points
  are sums of doubles, so the result of every operation is rounded here as IEEE 754
  binary64 arithmetic rounds it: to the nearest double, a tie going to the double with
  an even significand. \<open>fl x\<close> is the double nearest to the real number \<open>x\<close>. For
  \<open>x \<noteq> 0\<close> the binade of \<open>|x|\<close>, the integer \<open>b\<close> with \<open>2^b \<le> |x| < 2^(b+1)\<close>, is found by
  halving or doubling; the doubles near \<open>x\<close> are the multiples of \<open>2^(b - 52)\<close>, or of
  \<open>2^(-1074)\<close> when \<open>x\<close> is subnormal (\<open>b < -1022\<close>). Overflow to an infinity is not
  modelled: the model agrees with the machine for results below \<open>2^1024\<close>.
\<close>

definition round_even :: "real \<Rightarrow> int" where
  "round_even y =
     (let f = \<lfloor>y\<rfloor>; r = y - of_int f
      in if r < 1 / 2 then f else if 1 / 2 < r then f + 1 else if even f then f else f + 1)"

fun binade :: "nat \<Rightarrow> real \<Rightarrow> int" where
  "binade 0 x = 0"
| "binade (Suc n) x =
     (if 2 \<le> x then binade n (x / 2) + 1
      else if x < 1 then binade n (2 * x) - 1
      else 0)"

definition fl :: "real \<Rightarrow> real" where
  "fl x =
     (if x = 0 then 0
      else let e = max (binade 1100 \<bar>x\<bar>) (- 1022) - 52
           in sgn x * of_int (round_even (\<bar>x\<bar> / 2 powi e)) * 2 powi e)"

text \<open>The conversion \<open>(int) d\<close> of a double to a 32-bit \<open>int\<close>: the value is truncated
  towards zero, and the conversion is undefined (\<open>None\<close>) when the truncated value is
  not an \<open>int\<close>.\<close>

definition c_double_to_int :: "real \<Rightarrow> int option" where
  "c_double_to_int d =
     (let z = (if 0 \<le> d then \<lfloor>d\<rfloor> else \<lceil>d\<rceil>)
      in if - (2 ^ 31) \<le> z \<and> z < 2 ^ 31 then Some z else None)"

text \<open>\<open>get_grid_size\<close>: \<open>in->nx = (int)floor(in->xmax/in->dx)\<close>. The quotient is
  rounded; its floor is a double again.\<close>

definition get_grid_size :: "rinput \<Rightarrow> rinput option" where
  "get_grid_size inp =
     (case c_double_to_int (of_int \<lfloor>fl (xmax inp / dx inp)\<rfloor>) of
        None \<Rightarrow> None
      | Some n \<Rightarrow> Some (inp\<lparr>nx := n\<rparr>))"

text \<open>\<open>wave_vector_grid\<close>: \<open>xx[0] = in.dx/2.0\<close>, then \<open>xx[ii] = xx[ii-1] + in.dx\<close> for
  \<open>1 \<le> ii < nx\<close>. The first store is unconditional; the array has \<open>nx\<close> cells, so the
  model is used for \<open>nx \<ge> 1\<close>. The loop is a recursion on the number of cells still to
  write, carrying the last value written.\<close>

fun wvg_loop :: "real \<Rightarrow> real \<Rightarrow> nat \<Rightarrow> real list" where
  "wvg_loop prev d 0 = []"
| "wvg_loop prev d (Suc k) = fl (prev + d) # wvg_loop (fl (prev + d)) d k"

definition wave_vector_grid :: "rinput \<Rightarrow> real list" where
  "wave_vector_grid inp =
     fl (dx inp / 2) # wvg_loop (fl (dx inp / 2)) (dx inp) (nat (nx inp) - 1)"

text \<open>\<open>Rpa::buildWvGrid\<close>: the vector starts as \<open>[0.0]\<close> and grows by \<open>back() + dx\<close>
  while \<open>back() < xmax\<close>. The loop does not end when \<open>dx \<le> 0 < xmax\<close>, or when the
  sum \<open>back() + dx\<close> is rounded back to \<open>back()\<close>, so it is a partial function: \<open>None\<close>
  is the run that never returns.\<close>

partial_function (option) buildWvGrid_loop :: "real \<Rightarrow> real \<Rightarrow> real list \<Rightarrow> real list option" where
  "buildWvGrid_loop d xm wvg =
     (if last wvg < xm then buildWvGrid_loop d xm (wvg @ [fl (last wvg + d)]) else Some wvg)"

definition buildWvGrid :: "real \<Rightarrow> real \<Rightarrow> cxx_error + real list option" where
  "buildWvGrid d xm =
     (if xm < d then Inl RuntimeError else Inr (buildWvGrid_loop d xm [0]))"

section \<open>The STLS fixed-point driver (stls.c)\<close>

text \<open>
  The part of \<open>solve_stls\<close> after the arrays \<open>xx\<close>, \<open>phi\<close> and \<open>SSHF\<close> are set up: the
  initial guess, and the \<open>while\<close> loop. The loop state is the three arrays the loop
  writes, the residual \<open>iter_err\<close> and the counter \<open>iter_counter\<close>.
\<close>

record stls_state =
  st_GG :: "real list"
  st_GG_new :: "real list"
  st_SS :: "real list"
  st_iter_err :: real
  st_iter_counter :: int

text \<open>\<open>for (ii < nx) { GG[ii] = 0.0; GG_new[ii] = 1.0; }\<close>, \<open>compute_ssf\<close>,
  \<open>iter_err = 1.0\<close>, \<open>iter_counter = 0\<close>.\<close>

definition stls_init :: "rinput \<Rightarrow> real list \<Rightarrow> real list \<Rightarrow> real list \<Rightarrow> stls_state" where
  "stls_init inp SSHF phi xx =
     (let GG = map (\<lambda>ii. 0) [0..<nat (nx inp)];
          GG_new = map (\<lambda>ii. 1) [0..<nat (nx inp)]
      in \<lparr>st_GG = GG, st_GG_new = GG_new,
          st_SS = compute_ssf SSHF GG phi xx inp,
          st_iter_err = 1, st_iter_counter = 0\<rparr>)"

text \<open>The body of the \<open>while\<close> loop. The inner \<open>for\<close> loop adds
  \<open>(GG_new[ii] - GG[ii])^2\<close> to \<open>iter_err\<close> and then overwrites \<open>GG[ii]\<close>, index by index,
  so the residual is taken against the values of \<open>GG\<close> before mixing.\<close>

definition stls_step :: "rinput \<Rightarrow> real list \<Rightarrow> real list \<Rightarrow> real list \<Rightarrow> stls_state \<Rightarrow> stls_state" where
  "stls_step inp SSHF phi xx st =
     (let GG_new = compute_slfc (st_SS st) xx inp;
          iter_counter = st_iter_counter st + 1;
          iter_err = foldl (\<lambda>e ii. e + (GG_new ! ii - st_GG st ! ii) * (GG_new ! ii - st_GG st ! ii))
                       0 [0..<nat (nx inp)];
          GG = map (\<lambda>ii. a_mix inp * GG_new ! ii + (1 - a_mix inp) * st_GG st ! ii)
                 [0..<nat (nx inp)];
          iter_err = sqrt iter_err;
          SS = compute_ssf SSHF GG phi xx inp
      in \<lparr>st_GG = GG, st_GG_new = GG_new, st_SS = SS,
          st_iter_err = iter_err, st_iter_counter = iter_counter\<rparr>)"

text \<open>\<open>while (iter_counter < in.nIter && iter_err > in.err_min_iter)\<close>.\<close>

definition stls_guard :: "rinput \<Rightarrow> stls_state \<Rightarrow> bool" where
  "stls_guard inp st \<longleftrightarrow> st_iter_counter st < nIter inp \<and> st_iter_err st > err_min_iter inp"

function stls_loop :: "rinput \<Rightarrow> real list \<Rightarrow> real list \<Rightarrow> real list \<Rightarrow> stls_state \<Rightarrow> stls_state" where
  "stls_loop inp SSHF phi xx st =
     (if stls_guard inp st then stls_loop inp SSHF phi xx (stls_step inp SSHF phi xx st) else st)"
  by pat_completeness auto
termination
  by (relation "measure (\<lambda>(inp, SSHF, phi, xx, st). nat (nIter inp - st_iter_counter st))")
     (auto simp: stls_guard_def stls_step_def Let_def)

declare stls_loop.simps [simp del]

definition solve_stls_iterations :: "rinput \<Rightarrow> real list \<Rightarrow> real list \<Rightarrow> real list \<Rightarrow> stls_state" where
  "solve_stls_iterations inp SSHF phi xx = stls_loop inp SSHF phi xx (stls_init inp SSHF phi xx)"

section \<open>Chemical potential (stls.c)\<close>

text \<open>
  \<open>compute_mu\<close> drives a root solver of the GNU Scientific Library. The library is not
  part of the repository; the model has a record of the operations that \<open>compute_mu\<close> and
  \<open>normalization_condition\<close> call, over a solver state \<open>'s\<close>.
  \<open>gsl_root_fsolver_set\<close> returns a status together with the solver state.

  The library reports every error, that is every status other than \<open>GSL_SUCCESS\<close> and
  \<open>GSL_CONTINUE\<close>, by a call of its error handler before it returns the status. The
  handler installed by default prints the message and calls \<open>abort\<close>, and the C program
  installs no other (\<open>gsl_set_error_handler_off\<close> is called by the Python module of the
  C++ code only). So a library call that reports an error does not return: the program is
  left with \<open>ABORT\<close>. \<open>EXIT_FAILURE\<close> is the way the program leaves by \<open>exit\<close>.
\<close>

datatype gsl_status = GSL_SUCCESS | GSL_CONTINUE | GSL_EINVAL | GSL_EBADTOL

datatype c_exit = EXIT_FAILURE | ABORT

definition gsl_error :: "gsl_status \<Rightarrow> bool" where
  "gsl_error status \<longleftrightarrow> status \<noteq> GSL_SUCCESS \<and> status \<noteq> GSL_CONTINUE"

record 's gsl =
  gsl_root_fsolver_set :: "(real \<Rightarrow> real) \<Rightarrow> real \<Rightarrow> real \<Rightarrow> gsl_status \<times> 's"
  gsl_root_fsolver_iterate :: "'s \<Rightarrow> 's"
  gsl_root_fsolver_root :: "'s \<Rightarrow> real"
  gsl_root_fsolver_x_lower :: "'s \<Rightarrow> real"
  gsl_root_fsolver_x_upper :: "'s \<Rightarrow> real"
  gsl_root_test_interval :: "real \<Rightarrow> real \<Rightarrow> real \<Rightarrow> real \<Rightarrow> gsl_status"
  gsl_sf_gamma :: "real \<Rightarrow> real"
  gsl_sf_fermi_dirac_half :: "real \<Rightarrow> real"

definition normalization_condition :: "'s gsl \<Rightarrow> real \<Rightarrow> real \<Rightarrow> real" where
  "normalization_condition g m Th =
     gsl_sf_gamma g 1.5 * gsl_sf_fermi_dirac_half g m - 2 / (3 * Th powr (3 / 2))"

text \<open>
  The \<open>do ... while (status == GSL_CONTINUE && iter < max_iter)\<close> loop of \<open>compute_mu\<close>,
  with \<open>max_iter = 100\<close>. The source declares \<open>int status, iter;\<close> and never assigns
  \<open>iter\<close> before \<open>iter++\<close>, so the value the counter starts from is an argument of the
  model. The status of \<open>gsl_root_fsolver_iterate\<close> is overwritten before it is read; a
  bisection step reports an error only for a function value that is not finite, which
  does not occur over the reals. The second component of the result counts the solver
  iterations performed; it is not a variable of the source.
\<close>

function mu_loop :: "'s gsl \<Rightarrow> 's \<Rightarrow> int \<Rightarrow> nat \<Rightarrow> c_exit + real \<times> nat" where
  "mu_loop g s iter cnt =
     (let s' = gsl_root_fsolver_iterate g s;
          m = gsl_root_fsolver_root g s';
          lo = gsl_root_fsolver_x_lower g s';
          hi = gsl_root_fsolver_x_upper g s';
          status = gsl_root_test_interval g lo hi 0 (1 / 10 ^ 10)
      in if gsl_error status then Inl ABORT
         else let iter' = iter + 1
              in if status = GSL_CONTINUE \<and> iter' < 100
                 then mu_loop g s' iter' (Suc cnt)
                 else Inr (m, Suc cnt))"
  by pat_completeness auto
termination
  by (relation "measure (\<lambda>(g, s, iter, cnt). nat (100 - iter))") auto

declare mu_loop.simps [simp del]

text \<open>The \<open>gsl_function\<close> object \<open>ff_root\<close> of \<open>compute_mu\<close>: \<open>normalization_condition\<close>
  with the parameter \<open>in.Theta\<close>.\<close>

definition ff_root :: "'s gsl \<Rightarrow> rinput \<Rightarrow> real \<Rightarrow> real" where
  "ff_root g inp m = normalization_condition g m (Theta inp)"

text \<open>\<open>compute_mu\<close>: the solver is set on the bracket \<open>[-10, 10]\<close>; the source does not
  store the status of \<open>gsl_root_fsolver_set\<close>, and an error of that call leaves the
  program through the error handler. After the loop the function returns \<open>mu\<close>.\<close>

definition compute_mu_run :: "'s gsl \<Rightarrow> int \<Rightarrow> rinput \<Rightarrow> c_exit + real \<times> nat" where
  "compute_mu_run g iter0 inp =
     (let mu_lo_v = - 10; mu_hi_v = 10;
          (status, rsv) = gsl_root_fsolver_set g (ff_root g inp) mu_lo_v mu_hi_v
      in if gsl_error status then Inl ABORT else mu_loop g rsv iter0 0)"

definition compute_mu :: "'s gsl \<Rightarrow> int \<Rightarrow> rinput \<Rightarrow> c_exit + real" where
  "compute_mu g iter0 inp = map_sum id fst (compute_mu_run g iter0 inp)"

text \<open>The bracket test of one pass of the loop: \<open>gsl_root_test_interval (mu_lo, mu_hi, 0, 1e-10)\<close>
  on the bracket of the solver state.\<close>

definition mu_test :: "'s gsl \<Rightarrow> 's \<Rightarrow> gsl_status" where
  "mu_test g s = gsl_root_test_interval g (gsl_root_fsolver_x_lower g s)
                   (gsl_root_fsolver_x_upper g s) 0 (1 / 10 ^ 10)"

text \<open>
  The solver that \<open>compute_mu\<close> selects is \<open>gsl_root_fsolver_bisection\<close>. Its operations
  are modelled as the GSL reference manual describes them: the state is the bracket
  with the function values at its ends and the current root estimate; setting the
  solver reports \<open>GSL_EINVAL\<close> when the interval is empty or the function values at the
  end points do not straddle zero (both below or both above); one iteration halves the
  bracket, keeping the half over which the sign changes, and collapses it onto a point
  where the function vanishes; the interval test reports \<open>GSL_EBADTOL\<close> for a negative
  tolerance and \<open>GSL_EINVAL\<close> for an empty interval, and otherwise succeeds when
  \<open>|hi - lo| < epsabs + epsrel * min(|lo|, |hi|)\<close>, with \<open>0\<close> for the minimum when the
  bracket contains the origin. The two special functions remain parameters.
\<close>

record bisection_state =
  bs_f :: "real \<Rightarrow> real"
  bs_root :: real
  bs_x_lower :: real
  bs_x_upper :: real
  bs_f_lower :: real
  bs_f_upper :: real

definition bisection_set :: "(real \<Rightarrow> real) \<Rightarrow> real \<Rightarrow> real \<Rightarrow> gsl_status \<times> bisection_state" where
  "bisection_set f lo hi =
     (let f_lower = f lo; f_upper = f hi;
          st = \<lparr>bs_f = f, bs_root = (lo + hi) / 2, bs_x_lower = lo, bs_x_upper = hi,
                bs_f_lower = f_lower, bs_f_upper = f_upper\<rparr>
      in (if lo > hi then GSL_EINVAL
          else if (f_lower < 0 \<and> f_upper < 0) \<or> (f_lower > 0 \<and> f_upper > 0)
          then GSL_EINVAL else GSL_SUCCESS, st))"

definition bisection_iterate :: "bisection_state \<Rightarrow> bisection_state" where
  "bisection_iterate st =
     (let x_left = bs_x_lower st; x_right = bs_x_upper st;
          f_lower = bs_f_lower st; f_upper = bs_f_upper st
      in if f_lower = 0 then st\<lparr>bs_root := x_left, bs_x_upper := x_left\<rparr>
         else if f_upper = 0 then st\<lparr>bs_root := x_right, bs_x_lower := x_right\<rparr>
         else
           let x_bisect = (x_left + x_right) / 2; f_bisect = bs_f st x_bisect
           in if f_bisect = 0
              then st\<lparr>bs_root := x_bisect, bs_x_lower := x_bisect, bs_x_upper := x_bisect\<rparr>
              else if (f_lower > 0 \<and> f_bisect < 0) \<or> (f_lower < 0 \<and> f_bisect > 0)
              then st\<lparr>bs_root := (x_left + x_bisect) / 2, bs_x_upper := x_bisect,
                      bs_f_upper := f_bisect\<rparr>
              else st\<lparr>bs_root := (x_bisect + x_right) / 2, bs_x_lower := x_bisect,
                      bs_f_lower := f_bisect\<rparr>)"

definition test_interval :: "real \<Rightarrow> real \<Rightarrow> real \<Rightarrow> real \<Rightarrow> gsl_status" where
  "test_interval x_lower x_upper epsabs epsrel =
     (if epsabs < 0 then GSL_EBADTOL
      else if epsrel < 0 then GSL_EBADTOL
      else if x_lower > x_upper then GSL_EINVAL
      else
        let min_abs = (if (x_lower > 0 \<and> x_upper > 0) \<or> (x_lower < 0 \<and> x_upper < 0)
                       then min \<bar>x_lower\<bar> \<bar>x_upper\<bar> else 0);
            tolerance = epsabs + epsrel * min_abs
        in if \<bar>x_upper - x_lower\<bar> < tolerance then GSL_SUCCESS else GSL_CONTINUE)"

definition gsl_bisection :: "(real \<Rightarrow> real) \<Rightarrow> (real \<Rightarrow> real) \<Rightarrow> bisection_state gsl" where
  "gsl_bisection gam fd = \<lparr>gsl_root_fsolver_set = bisection_set,
     gsl_root_fsolver_iterate = bisection_iterate,
     gsl_root_fsolver_root = bs_root,
     gsl_root_fsolver_x_lower = bs_x_lower,
     gsl_root_fsolver_x_upper = bs_x_upper,
     gsl_root_test_interval = test_interval,
     gsl_sf_gamma = gam,
     gsl_sf_fermi_dirac_half = fd\<rparr>"

text \<open>What the bisection keeps true of its state when it works on the function \<open>F\<close> from
  the bracket \<open>[-10, 10]\<close>: the bracket stays inside \<open>[-10, 10]\<close> and contains the root
  estimate, and either the stored function values are those at the ends of the bracket
  and are not both below or both above zero, or the bracket is a single point at which
  \<open>F\<close> vanishes.\<close>

definition mu_bracket_ok :: "(real \<Rightarrow> real) \<Rightarrow> bisection_state \<Rightarrow> bool" where
  "mu_bracket_ok F st \<longleftrightarrow>
     bs_f st = F \<and> - 10 \<le> bs_x_lower st \<and> bs_x_lower st \<le> bs_root st
     \<and> bs_root st \<le> bs_x_upper st \<and> bs_x_upper st \<le> 10
     \<and> ((bs_f_lower st = F (bs_x_lower st) \<and> bs_f_upper st = F (bs_x_upper st)
          \<and> \<not> (F (bs_x_lower st) < 0 \<and> F (bs_x_upper st) < 0)
          \<and> \<not> (F (bs_x_lower st) > 0 \<and> F (bs_x_upper st) > 0))
         \<or> (bs_x_lower st = bs_x_upper st \<and> F (bs_x_lower st) = 0))"

section \<open>Binary restart file (stls.c)\<close>

text \<open>
  \<open>read_bin\<close> opens \<open>in->phi_file\<close> and leaves the program when the file cannot be
  opened. Otherwise it reads a whole \<open>input\<close> structure \<open>in_load\<close>, calls \<open>compute_mu\<close>
  (which may leave the program), reads \<open>nx * nl\<close> values of \<open>phi\<close> and \<open>nx\<close> values of
  \<open>SSHF\<close>, and assigns six fields of the caller's structure.
  The file is given by what these reads deliver (\<open>None\<close> when it cannot be opened); the
  return values of \<open>fread\<close> are not examined by the source. The arrays \<open>GG\<close>, \<open>GG_new\<close>
  and \<open>SS\<close> are allocated and not written, so they are not part of the result.
\<close>

record stls_arrays =
  arr_xx :: "real list"
  arr_phi :: "real list"
  arr_SSHF :: "real list"

definition read_bin :: "'s gsl \<Rightarrow> int \<Rightarrow> (rinput \<times> real list \<times> real list) option \<Rightarrow> rinput
    \<Rightarrow> c_exit + rinput \<times> stls_arrays" where
  "read_bin g iter0 file inp =
     (case file of
        None \<Rightarrow> Inl EXIT_FAILURE
      | Some (in_load0, phi_file_data, SSHF_file_data) \<Rightarrow>
          (case compute_mu g iter0 in_load0 of
             Inl e \<Rightarrow> Inl e
           | Inr m \<Rightarrow>
               let in_load = in_load0\<lparr>mu := m\<rparr>;
                   xx_local = wave_vector_grid in_load
               in Inr (inp\<lparr>Theta := Theta in_load, dx := dx in_load, xmax := xmax in_load,
                            nx := nx in_load, nl := nl in_load, mu := mu in_load\<rparr>,
                       \<lparr>arr_xx = xx_local, arr_phi = phi_file_data,
                        arr_SSHF = SSHF_file_data\<rparr>)))"

section \<open>The fixed-kernel tensor of the dynamic QSTLS-IET scheme (dynamic_qstls_iet.c)\<close>

text \<open>
  The tensor \<open>psi_re_fixed\<close> is a \<open>malloc\<close>ed array of \<open>nx * nW * nx\<close> doubles. A cell is
  \<open>None\<close> while nothing has been stored in it, and otherwise holds a double, which is a
  number or the constant \<open>INFINITY\<close> of the source.
\<close>

datatype cdouble = Num real | INFINITY

type_synonym cells = "cdouble option list"

definition malloc_cells :: "nat \<Rightarrow> cells" where
  "malloc_cells n = replicate n None"

text \<open>Modelled from the spec: \<open>idx3\<close> is declared in utils.h, which is not among the
  sources. The specification names it beside \<open>idx2\<close> as the index into a flat buffer
  that encodes a three-dimensional array; it is taken as the extension of \<open>idx2\<close> by a
  third, slowest index, so that \<open>idx3 (i, j, 0, N, M) = idx2 (i, j, N)\<close>.\<close>

definition idx3 :: "nat \<Rightarrow> nat \<Rightarrow> nat \<Rightarrow> nat \<Rightarrow> nat \<Rightarrow> nat" where
  "idx3 xx yy zz x_size y_size = (zz * x_size * y_size) + (yy * x_size) + xx"

text \<open>The initialisation loop of \<open>compute_dynamic_adr_iet_pd\<close>, as far as it writes
  \<open>psi_re_fixed\<close>: \<open>psi_re_fixed[idx2(ii,jj,in.nx)] = INFINITY\<close> for \<open>ii < nx\<close>, \<open>jj < nW\<close>.\<close>

definition pd_init_fixed :: "rinput \<Rightarrow> cells \<Rightarrow> cells" where
  "pd_init_fixed inp psi_re_fixed =
     foldl (\<lambda>a ii. foldl (\<lambda>b jj. b[idx2 ii jj (nat (nx inp)) := Some INFINITY]) a
                        [0..<nat (nW inp)])
       psi_re_fixed [0..<nat (nx inp)]"

text \<open>\<open>write_dynamic_adr_iet_fixed\<close> and \<open>read_dynamic_adr_iet_fixed\<close>.\<close>

definition write_dynamic_adr_iet_fixed :: "cdouble list \<Rightarrow> cells \<Rightarrow> nat \<Rightarrow> nat \<Rightarrow> rinput \<Rightarrow> cells" where
  "write_dynamic_adr_iet_fixed var psi_re_fixed ii jj inp =
     foldl (\<lambda>a kk. a[idx3 ii jj kk (nat (nx inp)) (nat (nW inp)) := Some (var ! kk)])
       psi_re_fixed [0..<nat (nx inp)]"

definition read_dynamic_adr_iet_fixed :: "cells \<Rightarrow> nat \<Rightarrow> nat \<Rightarrow> rinput \<Rightarrow> cdouble option list" where
  "read_dynamic_adr_iet_fixed psi_re_fixed ii jj inp =
     map (\<lambda>kk. psi_re_fixed ! idx3 ii jj kk (nat (nx inp)) (nat (nW inp))) [0..<nat (nx inp)]"

text \<open>
  \<open>compute_dynamic_adr_iet_re_lev1\<close>, as far as it reads and writes \<open>psi_re_fixed\<close>. The
  body of the routine is an OpenMP parallel region, so every thread of the team runs
  it: the thread sets its private flag \<open>compute_fixed = true\<close>, allocates its work space,
  executes \<open>if (psi_re_fixed[0] != INFINITY) compute_fixed = false;\<close> and then takes its
  share of the iterations \<open>ii\<close> of the work-sharing loop \<open>#pragma omp for\<close>. There is no
  barrier between the test of \<open>psi_re_fixed[0]\<close> and the loop. For every slot \<open>(ii, jj)\<close>
  of its share a thread with the flag set stores the \<open>nx\<close> values that
  \<open>compute_dynamic_adr_iet_re_lev2\<close> returns for \<open>WW[jj]\<close> and \<open>xx[ii]\<close>, one by one
  (\<open>write_dynamic_adr_iet_fixed\<close>), and a thread with the flag cleared only reads the
  slot (\<open>read_dynamic_adr_iet_fixed\<close>). The level-2 routine is a nested quadrature over
  GSL splines; it does not touch \<open>psi_re_fixed\<close> and is a parameter \<open>lev2\<close> of the model.

  A thread is modelled by its private state: whether it has executed the test, its flag,
  the slots of its share that it has still to visit (the current one first) and the
  index \<open>kk\<close> of the next store into the current slot. One step of a thread is the test,
  one store \<open>psi_re_fixed[idx3(ii,jj,kk,nx,nW)] = var[kk]\<close>, or the move to the next slot.
\<close>

record omp_thread =
  th_tested :: bool
  th_compute_fixed :: bool
  th_slots :: "(nat \<times> nat) list"
  th_kk :: nat

definition omp_thread_start :: "rinput \<Rightarrow> nat list \<Rightarrow> omp_thread" where
  "omp_thread_start inp share =
     \<lparr>th_tested = False, th_compute_fixed = True,
      th_slots = concat (map (\<lambda>ii. map (\<lambda>jj. (ii, jj)) [0..<nat (nW inp)]) share),
      th_kk = 0\<rparr>"

definition omp_thread_step :: "(real \<Rightarrow> real \<Rightarrow> cdouble list) \<Rightarrow> real list \<Rightarrow> real list \<Rightarrow> rinput
    \<Rightarrow> omp_thread \<Rightarrow> cells \<Rightarrow> omp_thread \<times> cells" where
  "omp_thread_step lev2 WW xx inp th psi_re_fixed =
     (if \<not> th_tested th
      then (th\<lparr>th_tested := True,
               th_compute_fixed := (if psi_re_fixed ! 0 \<noteq> Some INFINITY then False
                                    else th_compute_fixed th)\<rparr>,
            psi_re_fixed)
      else
        (case th_slots th of
           [] \<Rightarrow> (th, psi_re_fixed)
         | (ii, jj) # rest \<Rightarrow>
             if th_compute_fixed th \<and> th_kk th < nat (nx inp)
             then (th\<lparr>th_kk := th_kk th + 1\<rparr>,
                   psi_re_fixed[idx3 ii jj (th_kk th) (nat (nx inp)) (nat (nW inp))
                                  := Some (lev2 (WW ! jj) (xx ! ii) ! th_kk th)])
             else (th\<lparr>th_slots := rest, th_kk := 0\<rparr>, psi_re_fixed)))"

text \<open>The team: the threads share \<open>psi_re_fixed\<close>, and a schedule, the list of the thread
  numbers in the order in which the threads take their steps, fixes the interleaving.
  A thread with nothing left to do waits at the end of the loop.\<close>

definition omp_step :: "(real \<Rightarrow> real \<Rightarrow> cdouble list) \<Rightarrow> real list \<Rightarrow> real list \<Rightarrow> rinput
    \<Rightarrow> omp_thread list \<times> cells \<Rightarrow> nat \<Rightarrow> omp_thread list \<times> cells" where
  "omp_step lev2 WW xx inp st t =
     (if t < length (fst st)
      then let (th, a) = omp_thread_step lev2 WW xx inp (fst st ! t) (snd st)
           in ((fst st)[t := th], a)
      else st)"

definition omp_run :: "(real \<Rightarrow> real \<Rightarrow> cdouble list) \<Rightarrow> real list \<Rightarrow> real list \<Rightarrow> rinput
    \<Rightarrow> nat list \<Rightarrow> omp_thread list \<times> cells \<Rightarrow> omp_thread list \<times> cells" where
  "omp_run lev2 WW xx inp sched st = foldl (omp_step lev2 WW xx inp) st sched"


text \<open>One call of \<open>compute_dynamic_adr_iet_re_lev1\<close>: \<open>shares\<close> lists, for every thread of
  the team, the iterations \<open>ii\<close> that the work-sharing loop gives to it.\<close>

definition compute_dynamic_adr_iet_re_lev1_fixed :: "(real \<Rightarrow> real \<Rightarrow> cdouble list) \<Rightarrow> real list
    \<Rightarrow> real list \<Rightarrow> rinput \<Rightarrow> nat list list \<Rightarrow> nat list \<Rightarrow> cells \<Rightarrow> omp_thread list \<times> cells" where
  "compute_dynamic_adr_iet_re_lev1_fixed lev2 WW xx inp shares sched psi_re_fixed =
     omp_run lev2 WW xx inp sched (map (omp_thread_start inp) shares, psi_re_fixed)"

text \<open>The state of a slot \<open>(ii, jj, *)\<close>: not yet computed, with the sentinel in its
  entry \<open>0\<close> and nothing stored in the others, or holding the \<open>nx\<close> kernel values.\<close>

definition slot_sentinel :: "rinput \<Rightarrow> cells \<Rightarrow> nat \<Rightarrow> nat \<Rightarrow> bool" where
  "slot_sentinel inp a ii jj \<longleftrightarrow>
     a ! idx3 ii jj 0 (nat (nx inp)) (nat (nW inp)) = Some INFINITY
     \<and> list_all (\<lambda>kk. a ! idx3 ii jj kk (nat (nx inp)) (nat (nW inp)) = None)
         [1..<nat (nx inp)]"


text \<open>The tensor as \<open>compute_dynamic_adr_iet_pd\<close> allocates and initialises it.\<close>

definition pd_fixed0 :: "rinput \<Rightarrow> cells" where
  "pd_fixed0 inp = pd_init_fixed inp (malloc_cells (nat (nx inp) * nat (nW inp) * nat (nx inp)))"

section \<open>The fixed-kernel file of the dynamic QSTLS-IET scheme (dynamic_qstls_iet.c)\<close>

text \<open>
  The file routines are modelled on bytes. A C \<open>int\<close> is a 32-bit word and a \<open>double\<close>
  is its 64-bit pattern; \<open>fwrite\<close> stores the bytes of a value with the least significant
  byte first. The products \<open>nx * nW\<close> and \<open>4 * nx * nW + 8\<close> are formed in unbounded
  integers, so the model is that of the source as long as they fit an \<open>int\<close>.
\<close>

type_synonym byte = "8 word"
type_synonym c_int = "32 word"
type_synonym c_double = "64 word"
type_synonym minput = "(c_int, c_double) input"

fun le_bytes :: "nat \<Rightarrow> nat \<Rightarrow> byte list" where
  "le_bytes 0 v = []"
| "le_bytes (Suc k) v = of_nat (v mod 256) # le_bytes k (v div 256)"

fun le_value :: "byte list \<Rightarrow> nat" where
  "le_value [] = 0"
| "le_value (b # bs) = unat b + 256 * le_value bs"

definition enc32 :: "c_int \<Rightarrow> byte list" where
  "enc32 w = le_bytes 4 (unat w)"

definition dec32 :: "byte list \<Rightarrow> c_int" where
  "dec32 bs = of_nat (le_value bs)"

definition enc64 :: "c_double \<Rightarrow> byte list" where
  "enc64 w = le_bytes 8 (unat w)"

definition dec64 :: "byte list \<Rightarrow> c_double" where
  "dec64 bs = of_nat (le_value bs)"

text \<open>An open file is the bytes not yet read and the end-of-file indicator. \<open>fread\<close>
  delivers the bytes it could read, returns the number of complete items among them, and
  sets the indicator when the file ends before \<open>size * nmemb\<close> bytes are read.\<close>

record c_file =
  f_data :: "byte list"
  f_eof :: bool

definition fread :: "nat \<Rightarrow> nat \<Rightarrow> c_file \<Rightarrow> byte list \<times> nat \<times> c_file" where
  "fread size_v nmemb fid =
     (let want = size_v * nmemb; got = take want (f_data fid)
      in (got, length got div size_v,
          \<lparr>f_data = drop want (f_data fid),
           f_eof = (f_eof fid \<or> length (f_data fid) < want)\<rparr>))"

text \<open>The bytes of a variable after \<open>fread\<close> has delivered \<open>got\<close> into it: what was read,
  followed by what the variable held beyond it.\<close>

definition store :: "byte list \<Rightarrow> byte list \<Rightarrow> byte list" where
  "store old got = got @ drop (length got) old"

definition fread_int :: "c_int \<Rightarrow> c_file \<Rightarrow> c_int \<times> nat \<times> c_file" where
  "fread_int old fid =
     (case fread 4 1 fid of (got, k, fid') \<Rightarrow> (dec32 (store (enc32 old) got), k, fid'))"

definition fread_double :: "c_double \<Rightarrow> c_file \<Rightarrow> c_double \<times> nat \<times> c_file" where
  "fread_double old fid =
     (case fread 8 1 fid of (got, k, fid') \<Rightarrow> (dec64 (store (enc64 old) got), k, fid'))"

text \<open>Reading an array of \<open>n\<close> doubles: the model returns the complete items delivered.
  The cells of the caller's buffer beyond them keep their contents; the source leaves
  the program unless all items of all four arrays were read.\<close>

definition fread_doubles :: "nat \<Rightarrow> c_file \<Rightarrow> c_double list \<times> nat \<times> c_file" where
  "fread_doubles n fid =
     (case fread 8 n fid of (got, k, fid') \<Rightarrow>
        (map (\<lambda>i. dec64 (take 8 (drop (8 * i) got))) [0..<k], k, fid'))"

text \<open>The local variables \<open>nx_file\<close>, ..., \<open>rs_file\<close> of \<open>read_fixed_dynamic_qstls_iet\<close>.
  They are not initialised, so the values they hold before the reads are an argument
  of the model.\<close>

record file_header =
  nx_file :: c_int
  dx_file :: c_double
  xmax_file :: c_double
  nW_file :: c_int
  dW_file :: c_double
  Wmax_file :: c_double
  Theta_file :: c_double
  rs_file :: c_double

datatype load_error = OpenFailed | GridIncompatible | FrequencyGridIncompatible
  | StatePointIncompatible | ItemsMismatch | EofExpected

text \<open>Modelled from the spec: \<open>DBL_TOL\<close> is defined in a header that is not among the
  sources; the specification gives the tolerance of the header comparison as \<open>1e-15\<close>.\<close>

definition DBL_TOL :: real where
  "DBL_TOL = 1 / 10 ^ 15"

text \<open>
  \<open>check_dynamic_qstls_iet\<close>. Every failing test prints a message and calls
  \<open>exit(EXIT_FAILURE)\<close>; the error value names the test. The argument \<open>dval\<close> gives the
  number a double denotes; the comparisons \<open>fabs(a - b) > DBL_TOL\<close> are made on these
  numbers, so a pattern that is no number (NaN, infinity) is outside the model.
\<close>

definition check_dynamic_qstls_iet :: "(c_double \<Rightarrow> real) \<Rightarrow> file_header \<Rightarrow> minput \<Rightarrow> nat \<Rightarrow> int
    \<Rightarrow> c_file \<Rightarrow> bool \<Rightarrow> bool \<Rightarrow> bool \<Rightarrow> load_error + c_file" where
  "check_dynamic_qstls_iet dval h inp it_read it_expected fid check_grid check_items check_eof =
     (if check_grid \<and> (nx_file h \<noteq> nx inp
                        \<or> \<bar>dval (dx_file h) - dval (dx inp)\<bar> > DBL_TOL
                        \<or> \<bar>dval (xmax_file h) - dval (xmax inp)\<bar> > DBL_TOL)
      then Inl GridIncompatible
      else if check_grid \<and> (nW_file h \<noteq> nW inp
                        \<or> \<bar>dval (dW_file h) - dval (dyn_dW inp)\<bar> > DBL_TOL
                        \<or> \<bar>dval (Wmax_file h) - dval (dyn_Wmax inp)\<bar> > DBL_TOL)
      then Inl FrequencyGridIncompatible
      else if check_grid \<and> (\<bar>dval (Theta_file h) - dval (Theta inp)\<bar> > DBL_TOL
                        \<or> \<bar>dval (rs_file h) - dval (rs inp)\<bar> > DBL_TOL)
      then Inl StatePointIncompatible
      else if check_items \<and> int it_read \<noteq> it_expected
      then Inl ItemsMismatch
      else if check_eof
      then (case fread 4 1 fid of (got, k, fid') \<Rightarrow>
              if \<not> f_eof fid' then Inl EofExpected else Inr fid')
      else Inr fid)"

text \<open>The eight header reads of \<open>read_fixed_dynamic_qstls_iet\<close>, with the sum \<open>it_read\<close>
  of their return values.\<close>

definition read_header :: "file_header \<Rightarrow> c_file \<Rightarrow> file_header \<times> nat \<times> c_file" where
  "read_header h0 fid0 =
     (case fread_int (nx_file h0) fid0 of (v1, k1, fid1) \<Rightarrow>
      case fread_double (dx_file h0) fid1 of (v2, k2, fid2) \<Rightarrow>
      case fread_double (xmax_file h0) fid2 of (v3, k3, fid3) \<Rightarrow>
      case fread_int (nW_file h0) fid3 of (v4, k4, fid4) \<Rightarrow>
      case fread_double (dW_file h0) fid4 of (v5, k5, fid5) \<Rightarrow>
      case fread_double (Wmax_file h0) fid5 of (v6, k6, fid6) \<Rightarrow>
      case fread_double (Theta_file h0) fid6 of (v7, k7, fid7) \<Rightarrow>
      case fread_double (rs_file h0) fid7 of (v8, k8, fid8) \<Rightarrow>
        (\<lparr>nx_file = v1, dx_file = v2, xmax_file = v3, nW_file = v4, dW_file = v5,
          Wmax_file = v6, Theta_file = v7, rs_file = v8\<rparr>,
         0 + k1 + k2 + k3 + k4 + k5 + k6 + k7 + k8, fid8))"

text \<open>The four array reads, with the sum of their return values.\<close>

definition read_arrays :: "nat \<Rightarrow> c_file
    \<Rightarrow> (c_double list \<times> c_double list \<times> c_double list \<times> c_double list) \<times> nat \<times> c_file" where
  "read_arrays n fid0 =
     (case fread_doubles n fid0 of (a1, k1, fid1) \<Rightarrow>
      case fread_doubles n fid1 of (a2, k2, fid2) \<Rightarrow>
      case fread_doubles n fid2 of (a3, k3, fid3) \<Rightarrow>
      case fread_doubles n fid3 of (a4, k4, fid4) \<Rightarrow>
        ((a1, a2, a3, a4), k1 + k2 + k3 + k4, fid4))"

text \<open>\<open>read_fixed_dynamic_qstls_iet\<close>. The file is \<open>None\<close> when \<open>fopen\<close> fails. On
  success the result is the contents of \<open>phi_re\<close>, \<open>phi_im\<close>, \<open>psi_re\<close>, \<open>psi_im\<close>.\<close>

definition read_fixed_dynamic_qstls_iet :: "(c_double \<Rightarrow> real) \<Rightarrow> file_header \<Rightarrow> byte list option
    \<Rightarrow> minput
    \<Rightarrow> load_error + (c_double list \<times> c_double list \<times> c_double list \<times> c_double list)" where
  "read_fixed_dynamic_qstls_iet dval h0 file inp =
     (case file of
        None \<Rightarrow> Inl OpenFailed
      | Some bytes \<Rightarrow>
          (case read_header h0 \<lparr>f_data = bytes, f_eof = False\<rparr> of (h, it_read, fid) \<Rightarrow>
           case check_dynamic_qstls_iet dval h inp it_read 8 fid True True False of
             Inl e \<Rightarrow> Inl e
           | Inr fid \<Rightarrow>
               (case read_arrays (nat (sint (nx_file h) * sint (nW_file h))) fid of
                  (arrs, it_arr, fid) \<Rightarrow>
                    case check_dynamic_qstls_iet dval h inp (it_read + it_arr)
                           (4 * sint (nx_file h) * sint (nW_file h) + 8) fid False True True of
                      Inl e \<Rightarrow> Inl e
                    | Inr fid \<Rightarrow> Inr arrs)))"

text \<open>\<open>write_fixed_dynamic_qstls_iet\<close>: the bytes written to the file. Each array
  contributes its first \<open>nx * nW\<close> items.\<close>

definition write_header :: "minput \<Rightarrow> byte list" where
  "write_header inp =
     enc32 (nx inp) @ enc64 (dx inp) @ enc64 (xmax inp) @ enc32 (nW inp) @ enc64 (dyn_dW inp)
     @ enc64 (dyn_Wmax inp) @ enc64 (Theta inp) @ enc64 (rs inp)"

definition write_doubles :: "nat \<Rightarrow> c_double list \<Rightarrow> byte list" where
  "write_doubles n arr = concat (map enc64 (take n arr))"

definition write_fixed_dynamic_qstls_iet :: "c_double list \<Rightarrow> c_double list \<Rightarrow> c_double list
    \<Rightarrow> c_double list \<Rightarrow> minput \<Rightarrow> byte list" where
  "write_fixed_dynamic_qstls_iet phi_re phi_im psi_re psi_im inp =
     (let n = nat (sint (nx inp) * sint (nW inp))
      in write_header inp @ write_doubles n phi_re @ write_doubles n phi_im
         @ write_doubles n psi_re @ write_doubles n psi_im)"

text \<open>The header that \<open>write_fixed_dynamic_qstls_iet\<close> stores for an input.\<close>

definition header_of :: "minput \<Rightarrow> file_header" where
  "header_of inp = \<lparr>nx_file = nx inp, dx_file = dx inp, xmax_file = xmax inp, nW_file = nW inp,
     dW_file = dyn_dW inp, Wmax_file = dyn_Wmax inp, Theta_file = Theta inp, rs_file = rs inp\<rparr>"

section \<open>Reference formulas and concrete inputs\<close>

text \<open>The dielectric static structure factor as the specification writes it:
  \<open>S = S_HF - (3/2) Theta f (1 - G) Sum_l w_l phi_l^2 / (pi lambda x^2 + f (1 - G) phi_l)\<close>
  with \<open>f = 4 lambda^2 rs\<close>, \<open>w_0 = 1\<close> and \<open>w_l = 2\<close> for \<open>l > 0\<close>. This definition
  follows the specification, not the code; the code is compared with it.\<close>

definition spec_weight :: "nat \<Rightarrow> real" where
  "spec_weight l = (if l = 0 then 1 else 2)"

definition spec_ssf :: "real \<Rightarrow> real \<Rightarrow> real \<Rightarrow> real \<Rightarrow> real \<Rightarrow> nat \<Rightarrow> (nat \<Rightarrow> real) \<Rightarrow> real" where
  "spec_ssf Th r x shf g n ph =
     (let f = 4 * lambda_c\<^sup>2 * r
      in shf - 3 / 2 * Th * f * (1 - g)
           * (\<Sum>l<n. spec_weight l * (ph l)\<^sup>2 / (pi * lambda_c * x\<^sup>2 + f * (1 - g) * ph l)))"

text \<open>A zero-filled input structure, the base of the concrete inputs used below.\<close>

definition input0 :: rinput where
  "input0 = \<lparr>Theta = 0, rs = 0, mu = 0, mu_lo = 0, mu_hi = 0, dx = 0, xmax = 0, nx = 0,
     nl = 0, nIter = 0, err_min_iter = 0, a_mix = 0, theory_str = [], phi_file = [],
     nW = 0, dyn_dW = 0, dyn_Wmax = 0, dyn_xtarget = 0, dyn_adr_file = [],
     qstls_iet_static = 0\<rparr>"

definition input_c1 :: rinput where
  "input_c1 = input0\<lparr>Theta := 1, rs := 1, nx := 1, nl := 1\<rparr>"

definition input_c8 :: rinput where
  "input_c8 = input0\<lparr>dx := 1, xmax := 3, nx := 3\<rparr>"

definition input_c4 :: rinput where
  "input_c4 = input0\<lparr>dx := 1, xmax := 2\<rparr>"

text \<open>The double that the C literal \<open>0.1\<close> denotes, and the default grid of the program,
  \<open>dx = 0.1\<close> and \<open>xmax = 20.0\<close>.\<close>

definition double_tenth :: real where
  "double_tenth = 3602879701896397 / 36028797018963968"

definition input_c4_tenth :: rinput where
  "input_c4_tenth = input0\<lparr>dx := double_tenth, xmax := 20\<rparr>"

definition input_c2 :: rinput where
  "input_c2 = input0\<lparr>nx := 1, nl := 1, nIter := 3, err_min_iter := 1 / 100000, a_mix := 1 / 10,
                     dx := 1, xmax := 1, Theta := 1, rs := 1\<rparr>"

text \<open>
  The special functions used to run \<open>compute_mu\<close> on concrete inputs. \<open>gsl_sf_gamma\<close> is
  given by its value \<open>sqrt pi / 2\<close> at \<open>3/2\<close>, the only argument the program passes. The
  Fermi-Dirac integral \<open>F_{1/2}\<close> is not available here; the exponential, its limit for
  large negative arguments and an upper bound of it everywhere, stands in for it.
\<close>

definition gamma_three_halves :: "real \<Rightarrow> real" where
  "gamma_three_halves x = sqrt pi / 2"

definition gsl_model :: "bisection_state gsl" where
  "gsl_model = gsl_bisection gamma_three_halves exp"

definition input_c10 :: rinput where
  "input_c10 = input0\<lparr>Theta := 1, rs := 2, dx := 1 / 10, xmax := 20, nx := 200, nl := 128,
      nIter := 1000, err_min_iter := 1 / 100000, a_mix := 1 / 10,
      theory_str := ''STLS'', phi_file := ''dens_response.bin''\<rparr>"

definition input_c10_load :: rinput where
  "input_c10_load = input0\<lparr>Theta := 2, rs := 5, mu := 7, dx := 1 / 2, xmax := 1, nx := 2, nl := 1\<rparr>"



definition input_c6 :: rinput where
  "input_c6 = input0\<lparr>nx := 2, nW := 1\<rparr>"

text \<open>Two wave-vectors and one frequency, a level-2 routine that returns two numbers, and
  three schedules: one thread that does all the work; two threads, the second of which
  executes its test of \<open>psi_re_fixed[0]\<close> after the first has stored its slot; and two
  threads that both execute the test before any store.\<close>

definition lev2_c6 :: "real \<Rightarrow> real \<Rightarrow> cdouble list" where
  "lev2_c6 W x = [Num (W + x), Num (W - x)]"

definition WW_c6 :: "real list" where
  "WW_c6 = [0]"

definition xx_c6 :: "real list" where
  "xx_c6 = [1 / 2, 3 / 2]"



definition sched_c6_early :: "nat list" where
  "sched_c6_early = [0, 1, 0, 0, 0, 1, 1, 1]"

text \<open>A machine-level input with one wave-vector and one frequency, a header of zeros for
  the uninitialised locals, and a reading of the patterns as numbers for the concrete
  run (the outcome of a load whose header equals the input's does not depend on it).\<close>

definition minput_c5 :: minput where
  "minput_c5 = \<lparr>Theta = 0, rs = 0, mu = 0, mu_lo = 0, mu_hi = 0, dx = 0, xmax = 0, nx = 1,
     nl = 0, nIter = 0, err_min_iter = 0, a_mix = 0, theory_str = [], phi_file = [],
     nW = 1, dyn_dW = 0, dyn_Wmax = 0, dyn_xtarget = 0, dyn_adr_file = [],
     qstls_iet_static = 0\<rparr>"

definition header_c5 :: file_header where
  "header_c5 = \<lparr>nx_file = 0, dx_file = 0, xmax_file = 0, nW_file = 0, dW_file = 0,
     Wmax_file = 0, Theta_file = 0, rs_file = 0\<rparr>"

definition dval_c5 :: "c_double \<Rightarrow> real" where
  "dval_c5 w = real_of_int (sint w)"

section \<open>Properties\<close>

subsection \<open>Rounding to double precision\<close>

text \<open>The rules by which \<open>fl\<close> is evaluated on a number.\<close>

lemma binade_numeral:
  "binade (numeral k) x =
     (if 2 \<le> x then binade (pred_numeral k) (x / 2) + 1
      else if x < 1 then binade (pred_numeral k) (2 * x) - 1
      else 0)"
  by (simp add: numeral_eq_Suc)

lemmas fl_eval = fl_def binade_numeral round_even_def Let_def

text \<open>The binade found by \<open>binade\<close> is the right one, and rounding a normal number changes
  it by at most the fraction \<open>2^(-53)\<close> of it.\<close>

lemma p2_Suc: "(2::real) powi (e + 1) = 2 * 2 powi e"
  by (simp add: power_int_add)

lemma p2_pred: "(2::real) powi (e - 1) = 2 powi e / 2"
  by (simp add: power_int_diff)

lemma p2_less_iff: "(2::real) powi a < 2 powi b \<longleftrightarrow> a < b"
proof
  assume l: "(2::real) powi a < 2 powi b"
  show "a < b"
  proof (rule ccontr)
    assume "\<not> a < b"
    then have "b \<le> a" by simp
    then have "(2::real) powi b \<le> 2 powi a" by (rule power_int_increasing) simp
    with l show False by simp
  qed
next
  assume "a < b"
  then show "(2::real) powi a < 2 powi b" by (rule power_int_strict_increasing) simp
qed

lemma p2_le_iff: "(2::real) powi a \<le> 2 powi b \<longleftrightarrow> a \<le> b"
  using p2_less_iff [of b a] by (auto simp: not_less [symmetric])

lemma p2_leI: "a \<le> b \<Longrightarrow> (2::real) powi a \<le> 2 powi b"
  by (simp add: p2_le_iff)

lemma p2_lessI: "a < b \<Longrightarrow> (2::real) powi a < 2 powi b"
  by (simp add: p2_less_iff)

lemma round_even_close: "\<bar>of_int (round_even y) - y\<bar> \<le> 1 / 2"
proof -
  have "of_int \<lfloor>y\<rfloor> \<le> y" "y < of_int \<lfloor>y\<rfloor> + 1" by linarith+
  then show ?thesis
    unfolding round_even_def Let_def by (auto simp: abs_le_iff)
qed

lemma round_even_ge: "of_int k \<le> y \<Longrightarrow> k \<le> round_even y"
proof -
  assume "of_int k \<le> y"
  then have "k \<le> \<lfloor>y\<rfloor>" by (simp add: le_floor_iff)
  then show ?thesis
    unfolding round_even_def Let_def by auto
qed

lemma binade_spec:
  assumes "2 powi (- int n) \<le> x" "x < 2 powi (int n + 1)"
  shows "2 powi (binade n x) \<le> x \<and> x < 2 powi (binade n x + 1)"
  using assms
proof (induction n arbitrary: x)
  case 0
  then show ?case by simp
next
  case (Suc n)
  have small: "(2::real) powi (- int n) \<le> 1"
    using p2_le_iff [of "- int n" 0] by simp
  have big: "(2::real) \<le> 2 powi (int n + 1)"
    using p2_le_iff [of 1 "int n + 1"] by simp
  have "- int (Suc n) = - int n - 1" by simp
  then have "(2::real) powi (- int (Suc n)) = 2 powi (- int n) / 2"
    by (simp only: p2_pred)
  with Suc.prems(1) have lo: "2 powi (- int n) / 2 \<le> x" by simp
  have "int (Suc n) + 1 = (int n + 1) + 1" by simp
  then have "(2::real) powi (int (Suc n) + 1) = 2 * 2 powi (int n + 1)"
    by (simp only: p2_Suc)
  with Suc.prems(2) have hi: "x < 2 * 2 powi (int n + 1)" by simp
  show ?case
  proof (cases "2 \<le> x")
    case True
    define B where "B = binade n (x / 2)"
    have r: "binade (Suc n) x = B + 1" using True by (simp add: B_def)
    have "2 powi (- int n) \<le> x / 2" using True small by simp
    moreover have "x / 2 < 2 powi (int n + 1)" using hi by simp
    ultimately have "2 powi B \<le> x / 2 \<and> x / 2 < 2 powi (B + 1)"
      unfolding B_def by (rule Suc.IH)
    then have "2 * 2 powi B \<le> x" "x < 2 * 2 powi (B + 1)"
      by simp_all
    then have "2 powi (B + 1) \<le> x" "x < 2 powi (B + 1 + 1)"
      by (simp_all only: p2_Suc)
    then show ?thesis unfolding r by simp
  next
    case False
    show ?thesis
    proof (cases "x < 1")
      case True
      define B where "B = binade n (2 * x)"
      have r: "binade (Suc n) x = B - 1" using True False by (simp add: B_def)
      have "2 powi (- int n) \<le> 2 * x" using lo by simp
      moreover have "2 * x < 2 powi (int n + 1)" using True big by simp
      ultimately have "2 powi B \<le> 2 * x \<and> 2 * x < 2 powi (B + 1)"
        unfolding B_def by (rule Suc.IH)
      then have "2 powi B / 2 \<le> x" "x < 2 powi B"
        by (simp_all add: p2_Suc)
      then have "2 powi (B - 1) \<le> x" "x < 2 powi (B - 1 + 1)"
        by (simp_all add: p2_pred)
      then show ?thesis unfolding r by simp
    next
      case nl: False
      with False show ?thesis by simp
    qed
  qed
qed

lemma binade_normal:
  assumes "2 powi (- 1022) \<le> x" "x < 2 powi 1024"
  shows "2 powi (binade 1100 x) \<le> x" "x < 2 powi (binade 1100 x + 1)"
    "- 1022 \<le> binade 1100 x" "binade 1100 x \<le> 1023"
proof -
  have "(2::real) powi (- int 1100) \<le> 2 powi (- 1022)"
    by (rule p2_leI) simp
  with assms(1) have a: "2 powi (- int 1100) \<le> x" by simp
  have "(2::real) powi 1024 < 2 powi (int 1100 + 1)"
    by (rule p2_lessI) simp
  with assms(2) have b: "x < 2 powi (int 1100 + 1)" by simp
  from binade_spec [OF a b]
  show s: "2 powi (binade 1100 x) \<le> x" and t: "x < 2 powi (binade 1100 x + 1)"
    by simp_all
  from assms(1) t have "(2::real) powi (- 1022) < 2 powi (binade 1100 x + 1)" by simp
  then have "- 1022 < binade 1100 x + 1" by (simp only: p2_less_iff)
  then show "- 1022 \<le> binade 1100 x" by linarith
  from s assms(2) have "(2::real) powi (binade 1100 x) < 2 powi 1024" by simp
  then have "binade 1100 x < 1024" by (simp only: p2_less_iff)
  then show "binade 1100 x \<le> 1023" by linarith
qed

lemma fl_normal:
  assumes "2 powi (- 1022) \<le> x" "x < 2 powi 1024"
  shows "fl x = of_int (round_even (x / 2 powi (binade 1100 x - 52))) * 2 powi (binade 1100 x - 52)"
proof -
  have "0 < (2::real) powi (- 1022)" by (rule zero_less_power_int) simp
  with assms(1) have x: "0 < x" by linarith
  from binade_normal(3) [OF assms] have "max (binade 1100 x) (- 1022) = binade 1100 x"
    by simp
  with x show ?thesis
    by (simp add: fl_def Let_def)
qed

lemma fl_rel_error:
  assumes "2 powi (- 1022) \<le> x" "x < 2 powi 1024"
  shows "\<bar>fl x - x\<bar> \<le> x * 2 powi (- 53)"
proof -
  define b where "b = binade 1100 x"
  define E :: real where "E = 2 powi (b - 52)"
  define y where "y = x / E"
  have E: "0 < E" by (simp add: E_def)
  have f: "fl x = of_int (round_even y) * E"
    unfolding y_def E_def b_def by (rule fl_normal [OF assms])
  have xy: "x = y * E" using E by (simp add: y_def)
  have "(of_int (round_even y) - y) * E = of_int (round_even y) * E - y * E"
    by (rule left_diff_distrib)
  also have "\<dots> = fl x - x" using f xy by simp
  finally have d: "fl x - x = (of_int (round_even y) - y) * E" by simp
  have "\<bar>fl x - x\<bar> = \<bar>of_int (round_even y) - y\<bar> * E"
    unfolding d using E by (simp add: abs_mult)
  also have "\<dots> \<le> 1 / 2 * E"
    using round_even_close [of y] E by (intro mult_right_mono) simp_all
  also have "1 / 2 * E = 2 powi b * 2 powi (- 53)"
  proof -
    have "(2::real) powi b * 2 powi (- 53) = 2 powi (b + (- 53))"
      by (subst power_int_add) simp_all
    also have "b + (- 53) = (b - 52) - 1" by simp
    also have "(2::real) powi ((b - 52) - 1) = 2 powi (b - 52) / 2" by (rule p2_pred)
    finally show ?thesis by (simp add: E_def)
  qed
  also have "\<dots> \<le> x * 2 powi (- 53)"
    using binade_normal(1) [OF assms] unfolding b_def
    by (intro mult_right_mono) simp_all
  finally show ?thesis .
qed

lemma fl_ge_binade:
  assumes "2 powi (- 1022) \<le> x" "x < 2 powi 1024"
  shows "2 powi (binade 1100 x) \<le> fl x"
proof -
  define b where "b = binade 1100 x"
  define E :: real where "E = 2 powi (b - 52)"
  have E: "0 < E" by (simp add: E_def)
  have f: "fl x = of_int (round_even (x / E)) * E"
    unfolding E_def b_def by (rule fl_normal [OF assms])
  have pb: "(2::real) powi b = 2 ^ 52 * E"
  proof -
    have "(2::real) powi 52 * 2 powi (b - 52) = 2 powi (52 + (b - 52))"
      by (subst power_int_add) simp_all
    then show ?thesis by (simp add: E_def)
  qed
  have "2 powi b \<le> x" unfolding b_def by (rule binade_normal(1) [OF assms])
  then have "2 ^ 52 \<le> x / E" using E unfolding pb by (simp add: field_simps)
  then have "of_int (2 ^ 52) \<le> x / E" by simp
  then have "(2 ^ 52 :: int) \<le> round_even (x / E)" by (rule round_even_ge)
  then have "(of_int (2 ^ 52) :: real) \<le> of_int (round_even (x / E))"
    by (simp only: of_int_le_iff)
  then have "2 ^ 52 * E \<le> of_int (round_even (x / E)) * E"
    using E by (intro mult_right_mono) simp_all
  then show ?thesis unfolding f pb b_def [symmetric] .
qed

lemma fl_ge_one:
  assumes "1 \<le> x" "x < 2 powi 1024"
  shows "1 \<le> fl x"
proof -
  have "(2::real) powi (- 1022) \<le> 2 powi 0" by (rule p2_leI) simp
  with assms(1) have n: "2 powi (- 1022) \<le> x" by simp
  from assms(1) binade_normal(2) [OF n assms(2)]
  have "(2::real) powi 0 < 2 powi (binade 1100 x + 1)" by simp
  then have "0 < binade 1100 x + 1" by (simp only: p2_less_iff)
  then have "0 \<le> binade 1100 x" by linarith
  then have "(2::real) powi 0 \<le> 2 powi (binade 1100 x)" by (rule p2_leI)
  with fl_ge_binade [OF n assms(2)] show ?thesis by simp
qed

lemma fl_half:
  assumes "2 powi (- 1021) \<le> x" "x < 2 powi 1024"
  shows "fl (x / 2) = fl x / 2"
proof -
  have "(2::real) powi (- 1022) \<le> 2 powi (- 1021)" by (rule p2_leI) simp
  with assms(1) have n: "2 powi (- 1022) \<le> x" by simp
  have "(2::real) powi (- 1021 - 1) = 2 powi (- 1021) / 2" by (rule p2_pred)
  with assms(1) have nh: "2 powi (- 1022) \<le> x / 2" by simp
  have "0 < (2::real) powi (- 1022)" by (rule zero_less_power_int) simp
  with n have xp: "0 < x" by linarith
  then have hh: "x / 2 < 2 powi 1024" using assms(2) by simp
  define b where "b = binade 1100 x"
  define c where "c = binade 1100 (x / 2)"
  have b: "2 powi b \<le> x" "x < 2 powi (b + 1)"
    unfolding b_def by (rule binade_normal [OF n assms(2)])+
  have c: "2 powi c \<le> x / 2" "x / 2 < 2 powi (c + 1)"
    unfolding c_def by (rule binade_normal [OF nh hh])+
  from c have "2 * 2 powi c \<le> x" "x < 2 * (2 * 2 powi c)"
    by (simp_all add: p2_Suc)
  then have c': "2 powi (c + 1) \<le> x" "x < 2 powi (c + 1 + 1)"
    by (simp_all only: p2_Suc)
  from c'(1) b(2) have "(2::real) powi (c + 1) < 2 powi (b + 1)" by simp
  then have "c + 1 < b + 1" by (simp only: p2_less_iff)
  then have 1: "c < b" by linarith
  from b(1) c'(2) have "(2::real) powi b < 2 powi (c + 1 + 1)" by simp
  then have "b < c + 1 + 1" by (simp only: p2_less_iff)
  then have 2: "b < c + 2" by linarith
  from 1 2 have cb: "c = b - 1" by simp
  have e: "(2::real) powi (c - 52) = 2 powi (b - 52) / 2"
    unfolding cb using p2_pred [of "b - 52"] by (simp add: algebra_simps)
  have "fl (x / 2) = of_int (round_even (x / 2 / 2 powi (c - 52))) * 2 powi (c - 52)"
    unfolding c_def by (rule fl_normal [OF nh hh])
  also have "\<dots> = of_int (round_even (x / 2 powi (b - 52))) * 2 powi (b - 52) / 2"
    unfolding e by simp
  also have "\<dots> = fl x / 2"
    unfolding b_def by (simp add: fl_normal [OF n assms(2)])
  finally show ?thesis .
qed


lemma foldl_add_sum_list:
  "foldl (\<lambda>acc k. acc + f k) a ks = a + sum_list (map f ks)"
  for a :: real
  by (induction ks arbitrary: a) (simp_all add: add.assoc)

lemma foldl_add_sum:
  "foldl (\<lambda>acc k. acc + f k) 0 [0..<n] = (\<Sum>k<n. f k)"
  for f :: "nat \<Rightarrow> real"
  by (simp add: foldl_add_sum_list interv_sum_list_conv_sum_set_nat atLeast0LessThan)

lemma ssf_BB_sum:
  "ssf_BB GG phi xx inp ii = (\<Sum>ll<nat (nl inp). ssf_BB_tmp GG phi xx inp ii ll)"
  by (simp add: ssf_BB_def foldl_add_sum)

lemma lambda_c_pos: "lambda_c > 0"
  by (simp add: lambda_c_def)

lemma compute_ssf_nth:
  "ii < nat (nx inp) \<Longrightarrow> compute_ssf SSHF GG phi xx inp ! ii = ssf_point SSHF GG phi xx inp ii"
  by (simp add: compute_ssf_def)

lemma ssf_BB_tmp_weight:
  "ssf_BB_tmp GG phi xx inp ii l =
     spec_weight l * (phi ! idx2 ii l (nat (nx inp)))\<^sup>2
       / (pi * lambda_c * (xx ! ii)\<^sup>2
          + 4 * lambda_c\<^sup>2 * rs inp * (1 - GG ! ii) * phi ! idx2 ii l (nat (nx inp)))"
  by (simp add: ssf_BB_tmp_def Let_def spec_weight_def power2_eq_square mult_ac)

lemma ssf_point_formula:
  "xx ! ii > 0 \<Longrightarrow> ssf_point SSHF GG phi xx inp ii =
     spec_ssf (Theta inp) (rs inp) (xx ! ii) (SSHF ! ii) (GG ! ii) (nat (nl inp))
       (\<lambda>l. phi ! idx2 ii l (nat (nx inp)))"
  by (simp add: ssf_point_def spec_ssf_def ssf_BB_sum ssf_BB_tmp_weight Let_def power2_eq_square)

lemma ssf_point_nonpos: "xx ! ii \<le> 0 \<Longrightarrow> ssf_point SSHF GG phi xx inp ii = 0"
  by (simp add: ssf_point_def)

lemma Ssf_fact4_weight:
  "x \<noteq> 0 \<Longrightarrow> Ssf_fact4 x r g idr l =
     pi * lambda_c * x\<^sup>2 * (spec_weight l * (idr ! l)\<^sup>2
       / (pi * lambda_c * x\<^sup>2 + 4 * lambda_c\<^sup>2 * r * (1 - g) * idr ! l))"
proof -
  assume x: "x \<noteq> 0"
  have l: "lambda_c \<noteq> 0" using lambda_c_pos by simp
  let ?p = "idr ! l"
  have den: "1 + 4 * lambda_c * r / pi / (x * x) * (1 - g) * ?p
     = (pi * lambda_c * x\<^sup>2 + 4 * lambda_c\<^sup>2 * r * (1 - g) * ?p) / (pi * lambda_c * x\<^sup>2)"
    using x l by (simp add: field_simps power2_eq_square)
  show ?thesis
    unfolding Ssf_fact4_def Let_def den spec_weight_def
    by (simp add: power2_eq_square)
qed

lemma Ssf_get_formula:
  assumes "Th > 0" "x \<noteq> 0" "r \<noteq> 0"
  shows "Ssf_get x Th r shf g n idr = Inr (spec_ssf Th r x shf g n (\<lambda>l. idr ! l))"
proof -
  have l: "lambda_c \<noteq> 0" using lambda_c_pos by simp
  define T where "T = (\<lambda>l. spec_weight l * (idr ! l)\<^sup>2
               / (pi * lambda_c * x\<^sup>2 + 4 * lambda_c\<^sup>2 * r * (1 - g) * idr ! l))"
  define A where "A = 1.5 * (4 * lambda_c * r / pi) / (x * x) * Th * (1 - g)
          * (\<Sum>l<n. Ssf_fact4 x r g idr l)"
  define B where "B = 3 / 2 * Th * (4 * lambda_c\<^sup>2 * r) * (1 - g) * (\<Sum>l<n. T l)"
  have s: "(\<Sum>l<n. Ssf_fact4 x r g idr l) = pi * lambda_c * x\<^sup>2 * (\<Sum>l<n. T l)"
    using assms by (simp add: Ssf_fact4_weight T_def sum_distrib_left)
  have AB: "A = B"
    unfolding A_def B_def s using assms l by (simp add: field_simps power2_eq_square)
  have "Ssf_get x Th r shf g n idr = Inr (shf - A)"
    using assms by (simp add: Ssf_get_def Let_def foldl_add_sum A_def)
  moreover have "spec_ssf Th r x shf g n (\<lambda>l. idr ! l) = shf - B"
    by (simp add: spec_ssf_def Let_def B_def T_def)
  ultimately show ?thesis using AB by simp
qed

lemma Ssf_get_rs0:
  "Th > 0 \<Longrightarrow> Ssf_get x Th 0 shf g n idr = Inr shf"
  by (simp add: Ssf_get_def)

lemma spec_ssf_rs0: "spec_ssf Th 0 x shf g n ph = shf"
  by (simp add: spec_ssf_def)


subsection \<open>The two forms of the static structure factor\<close>

text \<open>
  C1 (as amended). For \<open>Theta > 0\<close> and a grid index \<open>ii < nx\<close>: \<open>compute_ssf\<close> stores the
  specification's formula when \<open>x[ii] > 0\<close> and \<open>0\<close> when \<open>x[ii] \<le> 0\<close>; \<open>Ssf::get\<close>, called
  on the same wave-vector with the row of the ideal density response for it, returns \<open>0\<close>
  when \<open>x[ii] = 0\<close> and \<open>rs \<noteq> 0\<close>, and the same formula otherwise (which is \<open>S_HF\<close> when
  \<open>rs = 0\<close>, also at \<open>x[ii] = 0\<close>, because its test \<open>rs == 0\<close> comes first). So the C form and
  the C++ form are the same function at every \<open>x[ii] > 0\<close>.
\<close>

theorem ssf_closed_form:
  assumes "Theta inp > 0" and "ii < nat (nx inp)"
  shows "compute_ssf SSHF GG phi xx inp ! ii
           = (if xx ! ii > 0
              then spec_ssf (Theta inp) (rs inp) (xx ! ii) (SSHF ! ii) (GG ! ii) (nat (nl inp))
                     (\<lambda>l. phi ! idx2 ii l (nat (nx inp)))
              else 0)
         \<and> Ssf_get (xx ! ii) (Theta inp) (rs inp) (SSHF ! ii) (GG ! ii) (nat (nl inp))
               (map (\<lambda>l. phi ! idx2 ii l (nat (nx inp))) [0..<nat (nl inp)])
           = Inr (if xx ! ii = 0 \<and> rs inp \<noteq> 0
                  then 0
                  else spec_ssf (Theta inp) (rs inp) (xx ! ii) (SSHF ! ii) (GG ! ii) (nat (nl inp))
                         (\<lambda>l. phi ! idx2 ii l (nat (nx inp))))"
proof
  show "compute_ssf SSHF GG phi xx inp ! ii
           = (if xx ! ii > 0
              then spec_ssf (Theta inp) (rs inp) (xx ! ii) (SSHF ! ii) (GG ! ii) (nat (nl inp))
                     (\<lambda>l. phi ! idx2 ii l (nat (nx inp)))
              else 0)"
    using assms by (simp add: compute_ssf_nth ssf_point_formula ssf_point_nonpos)
next
  let ?row = "map (\<lambda>l. phi ! idx2 ii l (nat (nx inp))) [0..<nat (nl inp)]"
  let ?F = "\<lambda>ph. spec_ssf (Theta inp) (rs inp) (xx ! ii) (SSHF ! ii) (GG ! ii) (nat (nl inp)) ph"
  have row: "?F (\<lambda>l. ?row ! l) = ?F (\<lambda>l. phi ! idx2 ii l (nat (nx inp)))"
    by (simp add: spec_ssf_def)
  show "Ssf_get (xx ! ii) (Theta inp) (rs inp) (SSHF ! ii) (GG ! ii) (nat (nl inp)) ?row
          = Inr (if xx ! ii = 0 \<and> rs inp \<noteq> 0 then 0
                 else ?F (\<lambda>l. phi ! idx2 ii l (nat (nx inp))))"
  proof (cases "rs inp = 0")
    case True
    then show ?thesis using assms by (simp add: Ssf_get_rs0 spec_ssf_rs0)
  next
    case False
    show ?thesis
    proof (cases "xx ! ii = 0")
      case True
      then show ?thesis using assms False by (simp add: Ssf_get_def)
    next
      case nz: False
      have "Ssf_get (xx ! ii) (Theta inp) (rs inp) (SSHF ! ii) (GG ! ii) (nat (nl inp)) ?row
              = Inr (?F (\<lambda>l. ?row ! l))"
        using assms nz False by (rule_tac Ssf_get_formula) simp_all
      then show ?thesis using nz row by simp
    qed
  qed
qed

theorem ssf_closed_form_witness:
  "Theta input_c1 > 0 \<and> (0::nat) < nat (nx input_c1)
   \<and> compute_ssf [1] [0] [1] [1] input_c1 ! 0 = spec_ssf 1 1 1 1 0 1 (\<lambda>l. [1] ! idx2 0 l 1)
   \<and> Ssf_get 1 1 1 1 0 1 [1] = Inr (spec_ssf 1 1 1 1 0 1 (\<lambda>l. [1] ! idx2 0 l 1))"
  using ssf_closed_form [of input_c1 0 "[1]" "[0]" "[1]" "[1]"]
  by (simp add: input_c1_def input0_def idx2_def)

text \<open>The claim as stated fails for \<open>Ssf::get\<close> at \<open>x = 0\<close>, \<open>rs = 0\<close>: with
  \<open>Theta = 1\<close> and \<open>S_HF = 1\<close> it returns \<open>1\<close>, where \<open>compute_ssf\<close> stores \<open>0\<close>.\<close>

theorem ssf_cxx_x0_rs0_counterexample:
  "Ssf_get 0 1 0 1 0 1 [1] = Inr 1
   \<and> compute_ssf [1] [0] [1] [0] (input0\<lparr>Theta := 1, rs := 0, nx := 1, nl := 1\<rparr>) = [0]"
  by (simp add: Ssf_get_def compute_ssf_def ssf_point_def input0_def)

subsection \<open>The Hartree-Fock integrand at zero wave-vector\<close>

lemma ssfHF_pos_same:
  "xx > 0 \<Longrightarrow> ssfHF yy xx inp = SsfHF_integrand xx (Theta inp) (mu inp) yy"
  by (simp add: ssfHF_def SsfHF_integrand_def)

lemma one_plus_cosh: "1 + cosh t = (1 + exp t) * (1 + exp t) / (2 * exp t)" for t :: real
proof -
  have "exp (- t) = 1 / exp t" by (simp add: exp_minus inverse_eq_divide)
  then show ?thesis
    by (simp add: cosh_field_def field_simps)
qed

lemma ssfHF_x0_factor:
  "xx \<le> 0 \<Longrightarrow> ssfHF yy xx inp
     = exp (yy * yy / Theta inp - mu inp) * SsfHF_integrand xx (Theta inp) (mu inp) yy"
  by (simp add: ssfHF_def SsfHF_integrand_def one_plus_cosh Let_def)


lemma SsfHF_log_term_deriv:
  fixes Th m y :: real
  assumes "Th \<noteq> 0"
  shows "((\<lambda>x. ln (1 + exp (m - (y - x) * (y - x) / Th)) - ln (1 + exp (m - (y + x) * (y + x) / Th)))
          has_real_derivative
          4 * y / Th * (exp (m - y * y / Th) / (1 + exp (m - y * y / Th)))) (at 0)"
proof -
  have p: "1 + exp (m - y * y / Th) > 0" by (simp add: add_pos_pos)
  show ?thesis
    using p assms
    by (auto intro!: derivative_eq_intros simp: field_simps add_pos_pos)
qed

lemma SsfHF_integrand_limit:
  fixes Th m y :: real
  assumes "Th \<noteq> 0"
  shows "((\<lambda>x. SsfHF_integrand x Th m y) \<longlongrightarrow> SsfHF_integrand 0 Th m y) (at_right 0)"
proof -
  define g where "g = (\<lambda>x. ln (1 + exp (m - (y - x) * (y - x) / Th))
                           - ln (1 + exp (m - (y + x) * (y + x) / Th)))"
  define E where "E = exp (m - y * y / Th)"
  define c where "c = - 3 * Th * y / (4 * (exp (y * y / Th - m) + 1))"
  have EP: "exp (y * y / Th - m) = 1 / E"
    unfolding E_def by (simp add: exp_diff field_simps)
  have Epos: "E > 0" by (simp add: E_def)
  have "(g has_real_derivative 4 * y / Th * (E / (1 + E))) (at 0)"
    unfolding g_def E_def by (rule SsfHF_log_term_deriv [OF assms])
  then have "(\<lambda>h. (g (0 + h) - g 0) / h) \<midarrow>0\<rightarrow> 4 * y / Th * (E / (1 + E))"
    by (simp only: DERIV_def)
  moreover have "g 0 = 0" by (simp add: g_def)
  ultimately have "((\<lambda>h. g h / h) \<longlongrightarrow> 4 * y / Th * (E / (1 + E))) (at 0)"
    by simp
  then have "((\<lambda>h. g h / h) \<longlongrightarrow> 4 * y / Th * (E / (1 + E))) (at_right 0)"
    by (rule filterlim_mono) (simp_all add: at_le)
  then have lim: "((\<lambda>h. c * (g h / h)) \<longlongrightarrow> c * (4 * y / Th * (E / (1 + E)))) (at_right 0)"
    by (rule tendsto_mult_left)
  define D where "D = 1 + E"
  have Dpos: "D > 0" using Epos by (simp add: D_def)
  have e1: "1 / E + 1 = D / E" and e2: "1 + 1 / E = D / E"
    using Epos by (simp_all add: D_def field_simps)
  have val: "c * (4 * y / Th * (E / (1 + E))) = SsfHF_integrand 0 Th m y"
    using assms Epos Dpos unfolding c_def SsfHF_integrand_def Let_def EP e1 e2 D_def [symmetric]
    by (simp add: field_simps)
  have ev: "\<forall>\<^sub>F x in at_right 0. c * (g x / x) = SsfHF_integrand x Th m y"
    unfolding eventually_at_filter
  proof (rule always_eventually, intro allI impI)
    fix x :: real
    assume "x \<noteq> 0" and "x \<in> {0<..}"
    then have x: "x > 0" by simp
    have "ln ((1 + exp (m - (y - x) * (y - x) / Th)) / (1 + exp (m - (y + x) * (y + x) / Th))) = g x"
      unfolding g_def by (rule ln_divide_pos) (simp_all add: add_pos_pos)
    then show "c * (g x / x) = SsfHF_integrand x Th m y"
      using x unfolding SsfHF_integrand_def Let_def c_def by simp
  qed
  show ?thesis
    using lim unfolding val by (rule Lim_transform_eventually [OF _ ev])
qed

text \<open>The claim as stated fails at \<open>x = 0\<close>: the \<open>x = 0\<close> branches are different
  functions, the C branch being \<open>exp (y^2/Theta - mu)\<close> times the C++ branch
  (\<open>ssfHF_x0_factor\<close>). At \<open>y = 1\<close>, \<open>Theta = 1\<close>, \<open>mu = 0\<close> the C function returns \<open>e\<close>
  times the value \<open>- 3 / (1 + e)^2\<close> of the C++ function. The C++ branch is the one that
  continues the common \<open>x > 0\<close> branch (\<open>SsfHF_integrand_limit\<close>).\<close>

theorem ssfHF_x0_counterexample:
  "ssfHF 1 0 (input0\<lparr>Theta := 1\<rparr>) = exp 1 * SsfHF_integrand 0 1 0 1
   \<and> SsfHF_integrand 0 1 0 1 = - 3 / ((1 + exp 1) * (1 + exp 1))
   \<and> ssfHF 1 0 (input0\<lparr>Theta := 1\<rparr>) \<noteq> SsfHF_integrand 0 1 0 1"
proof -
  have a: "ssfHF 1 0 (input0\<lparr>Theta := 1\<rparr>) = exp 1 * SsfHF_integrand 0 1 0 1"
    using ssfHF_x0_factor [of 0 1 "input0\<lparr>Theta := 1\<rparr>"] by (simp add: input0_def)
  have b: "SsfHF_integrand 0 1 0 1 = - 3 / ((1 + exp 1) * (1 + exp 1))"
    by (simp add: SsfHF_integrand_def)
  have "(1 + exp (1::real)) * (1 + exp 1) > 0" by (simp add: add_pos_pos)
  then have c: "SsfHF_integrand 0 1 0 1 < 0" unfolding b by simp
  have "exp (1::real) > 1" by simp
  with c have "exp 1 * SsfHF_integrand 0 1 0 1 < SsfHF_integrand 0 1 0 1"
    by simp
  then have "ssfHF 1 0 (input0\<lparr>Theta := 1\<rparr>) \<noteq> SsfHF_integrand 0 1 0 1"
    unfolding a by linarith
  with a b show ?thesis by blast
qed

text \<open>
  C9 (as amended). At every point with \<open>x > 0\<close>, for all \<open>y\<close>, \<open>Theta\<close> and \<open>mu\<close>, the C
  integrand \<open>ssfHF (y, x)\<close> and the C++ integrand \<open>SsfHF::integrand (y)\<close> are the same
  function. (The C program evaluates \<open>ssfHF\<close> at the points of its wave-vector grid, which
  are positive: \<open>ssfHF_on_grid\<close>.)
\<close>

theorem ssfHF_integrands_agree:
  assumes "0 < xx"
  shows "ssfHF yy xx inp = SsfHF_integrand xx (Theta inp) (mu inp) yy"
  using assms by (simp add: ssfHF_def SsfHF_integrand_def)

theorem ssfHF_integrands_agree_witness:
  "0 < (1::real) \<and> ssfHF 1 1 (input0\<lparr>Theta := 1\<rparr>) = SsfHF_integrand 1 1 0 1"
  using ssfHF_integrands_agree [of 1 1 "input0\<lparr>Theta := 1\<rparr>"] by (simp add: input0_def)

subsection \<open>The STLS kernel on the diagonal\<close>

lemma x_ln_x_tendsto_0: "((\<lambda>u::real. u * ln u) \<longlongrightarrow> 0) (at_right 0)"
proof -
  have "((\<lambda>u::real. ln (inverse u) / inverse u) \<longlongrightarrow> 0) (at_right 0)"
    by (rule filterlim_compose [OF ln_x_over_x_tendsto_0 filterlim_inverse_at_top_right])
  then have "((\<lambda>u::real. - (ln (inverse u) / inverse u)) \<longlongrightarrow> - 0) (at_right 0)"
    by (rule tendsto_minus)
  moreover have "\<forall>\<^sub>F u in at_right (0::real). - (ln (inverse u) / inverse u) = u * ln u"
    unfolding eventually_at_filter
    by (rule always_eventually) (simp add: ln_inverse divide_inverse mult.commute)
  ultimately show ?thesis
    using Lim_transform_eventually by fastforce
qed

lemma slfc_eq_limit_form_right:
  fixes yy :: real
  assumes "yy > 0" "h > 0"
  shows "slfc yy (h + yy) SS
         = - 3 / 4 * (yy * yy) * (SS - 1)
           * (1 + (2 * yy + h) / (2 * (h + yy) * yy) * (h * ln (2 * yy + h) - h * ln h))"
proof -
  define L where "L = ln (2 * yy + h) - ln h"
  define D where "D = 2 * (h + yy) * yy"
  have l: "ln ((h + yy + yy) / (h + yy - yy)) = L"
    using assms by (simp add: ln_divide_pos L_def add.commute)
  have q: "(h + yy) * (h + yy) - yy * yy = (2 * yy + h) * h"
    by (simp add: algebra_simps)
  have "slfc yy (h + yy) SS
          = - 3 / 4 * (yy * yy) * (SS - 1)
            * (1 + ((h + yy) * (h + yy) - yy * yy) / D * ln ((h + yy + yy) / (h + yy - yy)))"
    using assms by (simp add: slfc_def Let_def D_def)
  also have "\<dots> = - 3 / 4 * (yy * yy) * (SS - 1) * (1 + (2 * yy + h) / D * (h * L))"
    unfolding l q by simp
  finally show ?thesis
    by (simp add: L_def D_def right_diff_distrib)
qed

lemma slfc_limit_right:
  fixes yy :: real
  assumes "yy > 0"
  shows "((\<lambda>xx. slfc yy xx SS) \<longlongrightarrow> - 3 / 4 * (yy * yy) * (SS - 1)) (at_right yy)"
proof -
  let ?c = "- 3 / 4 * (yy * yy) * (SS - 1)"
  let ?f = "\<lambda>h::real. ?c * (1 + (2 * yy + h) / (2 * (yy + h) * yy) * (h * ln (2 * yy + h) - h * ln h))"
  have t1: "((\<lambda>h::real. h * ln (2 * yy + h)) \<longlongrightarrow> 0 * ln (2 * yy + 0)) (at_right 0)"
    using assms by (intro tendsto_intros) simp_all
  have t2: "((\<lambda>h::real. h * ln (2 * yy + h) - h * ln h) \<longlongrightarrow> 0 * ln (2 * yy + 0) - 0) (at_right 0)"
    by (rule tendsto_diff [OF t1 x_ln_x_tendsto_0])
  have t3: "((\<lambda>h::real. (2 * yy + h) / (2 * (yy + h) * yy)) \<longlongrightarrow> (2 * yy + 0) / (2 * (yy + 0) * yy)) (at_right 0)"
    using assms by (intro tendsto_intros) simp_all
  have "(?f \<longlongrightarrow> ?c * (1 + (2 * yy + 0) / (2 * (yy + 0) * yy) * (0 * ln (2 * yy + 0) - 0))) (at_right 0)"
    by (intro tendsto_intros t2 t3)
  then have lim: "(?f \<longlongrightarrow> ?c) (at_right 0)" by simp
  have ev: "\<forall>\<^sub>F h in at_right 0. ?f h = slfc yy (h + yy) SS"
    unfolding eventually_at_filter
    by (rule always_eventually) (use assms in \<open>simp add: slfc_eq_limit_form_right\<close>)
  have "((\<lambda>h. slfc yy (h + yy) SS) \<longlongrightarrow> ?c) (at_right 0)"
    by (rule Lim_transform_eventually [OF lim ev])
  then show ?thesis
    by (subst filterlim_at_right_to_0)
qed

lemma slfc_eq_limit_form_left:
  fixes yy :: real
  assumes "yy > 0" "h > 0" "h < yy"
  shows "slfc yy (yy - h) SS
         = - 3 / 4 * (yy * yy) * (SS - 1)
           * (1 - (2 * yy - h) / (2 * (yy - h) * yy) * (h * ln (2 * yy - h) - h * ln h))"
proof -
  define L where "L = ln (2 * yy - h) - ln h"
  define D where "D = 2 * (yy - h) * yy"
  have l: "ln ((yy - h + yy) / (yy - (yy - h))) = L"
    using assms by (simp add: ln_divide_pos L_def)
  have q: "(yy - h) * (yy - h) - yy * yy = - ((2 * yy - h) * h)"
    by (simp add: algebra_simps)
  have "slfc yy (yy - h) SS
          = - 3 / 4 * (yy * yy) * (SS - 1)
            * (1 + ((yy - h) * (yy - h) - yy * yy) / D * ln ((yy - h + yy) / (yy - (yy - h))))"
    using assms by (simp add: slfc_def Let_def D_def)
  also have "\<dots> = - 3 / 4 * (yy * yy) * (SS - 1) * (1 - (2 * yy - h) / D * (h * L))"
    unfolding l q by simp
  finally show ?thesis
    by (simp add: L_def D_def right_diff_distrib)
qed

lemma slfc_limit_left:
  fixes yy :: real
  assumes "yy > 0"
  shows "((\<lambda>xx. slfc yy xx SS) \<longlongrightarrow> - 3 / 4 * (yy * yy) * (SS - 1)) (at_left yy)"
proof -
  let ?c = "- 3 / 4 * (yy * yy) * (SS - 1)"
  let ?f = "\<lambda>h::real. ?c * (1 - (2 * yy - h) / (2 * (yy - h) * yy) * (h * ln (2 * yy - h) - h * ln h))"
  have t1: "((\<lambda>h::real. h * ln (2 * yy - h)) \<longlongrightarrow> 0 * ln (2 * yy - 0)) (at_right 0)"
    using assms by (intro tendsto_intros) simp_all
  have t2: "((\<lambda>h::real. h * ln (2 * yy - h) - h * ln h) \<longlongrightarrow> 0 * ln (2 * yy - 0) - 0) (at_right 0)"
    by (rule tendsto_diff [OF t1 x_ln_x_tendsto_0])
  have t3: "((\<lambda>h::real. (2 * yy - h) / (2 * (yy - h) * yy)) \<longlongrightarrow> (2 * yy - 0) / (2 * (yy - 0) * yy)) (at_right 0)"
    using assms by (intro tendsto_intros) simp_all
  have "(?f \<longlongrightarrow> ?c * (1 - (2 * yy - 0) / (2 * (yy - 0) * yy) * (0 * ln (2 * yy - 0) - 0))) (at_right 0)"
    by (intro tendsto_intros t2 t3)
  then have lim: "(?f \<longlongrightarrow> ?c) (at_right 0)" by simp
  have ev: "\<forall>\<^sub>F h in at_right 0. ?f h = slfc yy (- (h + - yy)) SS"
    unfolding eventually_at_right [of "0::real" "yy", OF assms]
    by (rule exI [of _ yy]) (use assms in \<open>simp add: slfc_eq_limit_form_left\<close>)
  have "((\<lambda>h. slfc yy (- (h + - yy)) SS) \<longlongrightarrow> ?c) (at_right 0)"
    by (rule Lim_transform_eventually [OF lim ev])
  then have "((\<lambda>x. slfc yy (- x) SS) \<longlongrightarrow> ?c) (at_right (- yy))"
    by (subst filterlim_at_right_to_0)
  then show ?thesis
    by (subst filterlim_at_left_to_right)
qed

lemma slfc_limit:
  fixes yy :: real
  assumes "yy > 0"
  shows "(\<lambda>xx. slfc yy xx SS) \<midarrow>yy\<rightarrow> - 3 / 4 * (yy * yy) * (SS - 1)"
  using slfc_limit_left [OF assms] slfc_limit_right [OF assms]
  by (rule filterlim_split_at)

lemma slfc_diag_value: "yy > 0 \<Longrightarrow> slfc yy yy SS = yy * yy * (SS - 1)"
  by (simp add: slfc_def)

text \<open>
  C7. On its \<open>x = y\<close> branch \<open>slfc\<close> returns \<open>y^2 (S - 1)\<close>, while the branches for
  \<open>x > y\<close> and \<open>x < y\<close> tend to \<open>- (3/4) y^2 (S - 1)\<close> as \<open>x\<close> tends to \<open>y\<close>
  (\<open>slfc_limit\<close>). At \<open>y = 1\<close>, \<open>S = 2\<close> the code returns \<open>1\<close> and the limit is
  \<open>- 3/4\<close>.
\<close>

theorem slfc_diag_diverges:
  "slfc 1 1 2 = 1 \<and> (\<lambda>xx. slfc 1 xx 2) \<midarrow>1\<rightarrow> - 3 / 4"
  using slfc_limit [of 1 2] by (simp add: slfc_def)


subsection \<open>The first entry of the local field correction\<close>

lemma compute_slfc_nth:
  "ii < nat (nx inp) \<Longrightarrow> compute_slfc SS xx inp ! ii = slfc_point SS xx inp ii"
  by (simp add: compute_slfc_def)

lemma slfc_point_sum:
  "slfc_point SS xx inp ii
     = dx inp * (\<Sum>jj<nat (nx inp - 1). slfc (xx ! jj) (xx ! ii) (SS ! jj))"
  by (simp add: slfc_point_def foldl_add_sum)

lemma slfc_nonpos: "xx \<le> 0 \<Longrightarrow> slfc yy xx SS = 0"
  by (simp add: slfc_def)

lemma ln2_less: "ln (2::real) < 3 / 4"
proof -
  have "1 + (3/4) + (3/4)\<^sup>2 / 2 \<le> exp (3/4 :: real)"
    by (rule exp_lower_Taylor_quadratic) simp
  then have "(2::real) < exp (3/4)" by (simp add: power2_eq_square)
  then have "ln (2::real) < ln (exp (3/4))" by (subst ln_less_cancel_iff) simp_all
  then show ?thesis by simp
qed

lemma input_c8_nx: "nx input_c8 = 3" "dx input_c8 = 1"
  by (simp_all add: input_c8_def input0_def)

lemma input_c8_grid_size: "get_grid_size (input0\<lparr>dx := 1, xmax := 3\<rparr>) = Some input_c8"
  by (simp add: get_grid_size_def c_double_to_int_def input_c8_def input0_def fl_eval)

lemma c8_grid: "wave_vector_grid input_c8 = [1/2, 3/2, 5/2]"
  by (simp add: wave_vector_grid_def input_c8_nx numeral_3_eq_3 fl_eval)

lemma c8_value:
  "compute_slfc [1, 2, 1] (wave_vector_grid input_c8) input_c8 ! 0
     = - 27 / 16 * (1 - 4 / 3 * ln 2)"
  by (simp add: compute_slfc_nth input_c8_nx slfc_point_def c8_grid
        upt_rec [of 0] upt_rec [of 1] upt_rec [of "Suc 0"] slfc_def)

text \<open>The claim as stated fails for the STLS closure on the cell-centred grid: with
  \<open>dx = 1\<close>, \<open>xmax = 3\<close> (grid \<open>1/2, 3/2, 5/2\<close>) and \<open>S = [1, 2, 1]\<close> the first entry
  is \<open>- 27/16 (1 - 4/3 ln 2)\<close>, which is not \<open>0\<close>. Only the \<open>x < y\<close> branch of \<open>slfc\<close>
  contributes to this value.\<close>

theorem slfc_first_entry_counterexample:
  "compute_slfc [1, 2, 1] (wave_vector_grid input_c8) input_c8 ! 0 \<noteq> 0"
  using ln2_less by (simp add: c8_value)

text \<open>
  C8 (as amended). \<open>Rpa::computeSlfc\<close> stores \<open>0\<close> in every entry, so \<open>G[0] = 0\<close> under
  RPA. Under the STLS closure \<open>compute_slfc\<close> stores
  \<open>G[0] = dx * Sum_{j < nx-1} slfc(x[j], x[0], S[j])\<close>, which is \<open>0\<close> when \<open>x[0] \<le> 0\<close>; on the
  cell-centred grid \<open>x[0] = dx/2 > 0\<close> and the sum need not vanish.
\<close>

theorem slfc_first_entry:
  assumes "1 \<le> nx inp" and "arr \<noteq> []"
  shows "Rpa_computeSlfc arr ! 0 = 0
         \<and> compute_slfc SS xx inp ! 0
             = dx inp * (\<Sum>jj<nat (nx inp - 1). slfc (xx ! jj) (xx ! 0) (SS ! jj))
         \<and> (xx ! 0 \<le> 0 \<longrightarrow> compute_slfc SS xx inp ! 0 = 0)"
proof -
  from assms(2) have "Rpa_computeSlfc arr ! 0 = 0"
    by (cases arr) (simp_all add: Rpa_computeSlfc_def)
  moreover from assms(1) have n: "0 < nat (nx inp)" by simp
  then have v: "compute_slfc SS xx inp ! 0
             = dx inp * (\<Sum>jj<nat (nx inp - 1). slfc (xx ! jj) (xx ! 0) (SS ! jj))"
    by (simp add: compute_slfc_nth slfc_point_sum)
  moreover have "xx ! 0 \<le> 0 \<longrightarrow> compute_slfc SS xx inp ! 0 = 0"
    unfolding v by (simp add: slfc_nonpos)
  ultimately show ?thesis by blast
qed

theorem slfc_first_entry_witness:
  "1 \<le> nx input_c8 \<and> [7::real] \<noteq> [] \<and> [0, 1, 2 :: real] ! 0 \<le> 0
   \<and> Rpa_computeSlfc [7] ! 0 = 0
   \<and> compute_slfc [1, 2, 1] [0, 1, 2] input_c8 ! 0 = 0"
  using slfc_first_entry [of input_c8 "[7]" "[1, 2, 1]" "[0, 1, 2]"]
  by (simp add: input_c8_nx)


subsection \<open>The wave-vector grid\<close>

lemma wvg_loop_length: "length (wvg_loop p d k) = k"
  by (induction k arbitrary: p) simp_all

lemma wvg_loop_chain:
  "i < k \<Longrightarrow> (p # wvg_loop p d k) ! Suc i = fl ((p # wvg_loop p d k) ! i + d)"
proof (induction k arbitrary: p i)
  case 0
  then show ?case by simp
next
  case (Suc k)
  show ?case
  proof (cases i)
    case 0
    then show ?thesis by simp
  next
    case (Suc j)
    with Suc.prems have "j < k" by simp
    from Suc.IH [OF this, of "fl (p + d)"] Suc show ?thesis by simp
  qed
qed

lemma wave_vector_grid_length: "1 \<le> nx inp \<Longrightarrow> length (wave_vector_grid inp) = nat (nx inp)"
  by (simp add: wave_vector_grid_def wvg_loop_length)

lemma wave_vector_grid_first: "wave_vector_grid inp ! 0 = fl (dx inp / 2)"
  by (simp add: wave_vector_grid_def)

lemma wave_vector_grid_chain:
  "Suc i < nat (nx inp) \<Longrightarrow>
     wave_vector_grid inp ! Suc i = fl (wave_vector_grid inp ! i + dx inp)"
  unfolding wave_vector_grid_def by (rule wvg_loop_chain) simp

text \<open>One rounded addition of the grid spacing.\<close>

lemma fl_add_spacing:
  assumes d: "2 powi (- 1021) \<le> d" "d \<le> 2 powi 990"
    and x: "0 \<le> x" "x \<le> 2 ^ 32 * d"
  shows "x + d / 2 < fl (x + d)" "fl (x + d) \<le> x + d + d / 2 ^ 20"
proof -
  have "0 < (2::real) powi (- 1021)" by (rule zero_less_power_int) simp
  with d(1) have dp: "0 < d" by linarith
  have "(2::real) powi (- 1022) \<le> 2 powi (- 1021)" by (rule p2_leI) simp
  with d(1) x(1) have lo: "2 powi (- 1022) \<le> x + d" by linarith
  have "x + d \<le> (2 ^ 32 + 1) * d" using x(2) by (simp add: algebra_simps)
  also have "\<dots> \<le> 2 ^ 33 * d" using dp by (intro mult_right_mono) simp_all
  finally have s33: "x + d \<le> 2 ^ 33 * d" .
  have "(2::real) ^ 33 * d \<le> 2 ^ 33 * 2 powi 990"
    using d(2) by (intro mult_left_mono) simp_all
  also have "(2::real) ^ 33 * 2 powi 990 = 2 powi (33 + 990)"
    by (subst power_int_add) simp_all
  also have "\<dots> < 2 powi 1024" by (rule p2_lessI) simp
  finally have "(2::real) ^ 33 * d < 2 powi 1024" .
  with s33 have hi: "x + d < 2 powi 1024" by linarith
  have u: "(2::real) powi (- 53) = 1 / 2 ^ 53"
    by (simp add: power_int_minus_divide)
  from fl_rel_error [OF lo hi] have e: "\<bar>fl (x + d) - (x + d)\<bar> \<le> (x + d) / 2 ^ 53"
    unfolding u by simp
  have "(x + d) / 2 ^ 53 \<le> 2 ^ 33 * d / 2 ^ 53"
    using s33 by (intro divide_right_mono) simp_all
  also have "\<dots> = d / 2 ^ 20" by simp
  finally have b: "(x + d) / 2 ^ 53 \<le> d / 2 ^ 20" .
  define t where "t = d / 2 ^ 20"
  from e b have "\<bar>fl (x + d) - (x + d)\<bar> \<le> t" unfolding t_def by (rule order_trans)
  then have c: "fl (x + d) - (x + d) \<le> t" "- (fl (x + d) - (x + d)) \<le> t"
    by (simp_all only: abs_le_iff)
  have "d / 2 ^ 20 < d / 2" using dp by (simp add: field_simps)
  then have t: "t < d / 2" by (simp only: t_def)
  from c(2) t show "x + d / 2 < fl (x + d)" by linarith
  from c(1) show "fl (x + d) \<le> x + d + d / 2 ^ 20" unfolding t_def by linarith
qed


lemma fl_half_spacing:
  assumes d: "2 powi (- 1021) \<le> d" "d \<le> 2 powi 990"
  shows "d / 4 < fl (d / 2)" "fl (d / 2) \<le> d" "fl d = d \<Longrightarrow> fl (d / 2) = d / 2"
proof -
  have "0 < (2::real) powi (- 1021)" by (rule zero_less_power_int) simp
  with d(1) have dp: "0 < d" by linarith
  have "(2::real) powi (- 1021 - 1) = 2 powi (- 1021) / 2" by (rule p2_pred)
  with d(1) have lo: "2 powi (- 1022) \<le> d / 2" by simp
  have "(2::real) powi 990 < 2 powi 1024" by (rule p2_lessI) simp
  with d(2) have hd: "d < 2 powi 1024" by linarith
  with dp have hi: "d / 2 < 2 powi 1024" by simp
  have u: "(2::real) powi (- 53) = 1 / 2 ^ 53"
    by (simp add: power_int_minus_divide)
  from fl_rel_error [OF lo hi] have "\<bar>fl (d / 2) - d / 2\<bar> \<le> d / 2 / 2 ^ 53"
    unfolding u by simp
  then have c: "fl (d / 2) - d / 2 \<le> d / 2 / 2 ^ 53" "- (fl (d / 2) - d / 2) \<le> d / 2 / 2 ^ 53"
    by (simp_all only: abs_le_iff)
  have t: "d / 2 / 2 ^ 53 < d / 4" using dp by (simp add: field_simps)
  from c(2) t show "d / 4 < fl (d / 2)" by linarith
  from c(1) t dp show "fl (d / 2) \<le> d" by linarith
  assume "fl d = d"
  with fl_half [OF d(1) hd] show "fl (d / 2) = d / 2" by simp
qed

lemma wave_vector_grid_bounds:
  assumes d: "2 powi (- 1021) \<le> dx inp" "dx inp \<le> 2 powi 990"
    and n: "nat (nx inp) \<le> 2 ^ 31"
    and i: "i < nat (nx inp)"
  shows "0 < wave_vector_grid inp ! i \<and> wave_vector_grid inp ! i \<le> 2 * (real i + 1) * dx inp"
  using i
proof (induction i)
  case 0
  have "0 < (2::real) powi (- 1021)" by (rule zero_less_power_int) simp
  with d(1) have dp: "0 < dx inp" by linarith
  from fl_half_spacing(1,2) [OF d] dp show ?case
    by (simp add: wave_vector_grid_first)
next
  case (Suc i)
  have "0 < (2::real) powi (- 1021)" by (rule zero_less_power_int) simp
  with d(1) have dp: "0 < dx inp" by linarith
  from Suc have IH: "0 < wave_vector_grid inp ! i"
      "wave_vector_grid inp ! i \<le> 2 * (real i + 1) * dx inp"
    by simp_all
  from Suc.prems n have "Suc i \<le> 2 ^ 31" by linarith
  then have "real (Suc i) \<le> real (2 ^ 31)" by (simp only: of_nat_le_iff)
  then have "real i + 1 \<le> 2 ^ 31" by simp
  then have "2 * (real i + 1) * dx inp \<le> 2 * 2 ^ 31 * dx inp"
    using dp by (intro mult_right_mono mult_left_mono) simp_all
  with IH(2) have ub: "wave_vector_grid inp ! i \<le> 2 ^ 32 * dx inp" by simp
  from IH(1) have nn: "0 \<le> wave_vector_grid inp ! i" by simp
  note s = fl_add_spacing [OF d nn ub]
  have c: "wave_vector_grid inp ! Suc i = fl (wave_vector_grid inp ! i + dx inp)"
    using Suc.prems by (rule wave_vector_grid_chain)
  have "dx inp / 2 ^ 20 \<le> dx inp" using dp by (simp add: field_simps)
  with s(2) IH(2) have "fl (wave_vector_grid inp ! i + dx inp) \<le> 2 * (real (Suc i) + 1) * dx inp"
    by (simp add: algebra_simps)
  moreover from s(1) IH(1) dp have "0 < fl (wave_vector_grid inp ! i + dx inp)" by linarith
  ultimately show ?case unfolding c by simp
qed

lemma wave_vector_grid_increasing:
  assumes d: "2 powi (- 1021) \<le> dx inp" "dx inp \<le> 2 powi 990"
    and n: "nat (nx inp) \<le> 2 ^ 31"
    and i: "Suc i < nat (nx inp)"
  shows "wave_vector_grid inp ! i < wave_vector_grid inp ! Suc i"
proof -
  have "0 < (2::real) powi (- 1021)" by (rule zero_less_power_int) simp
  with d(1) have dp: "0 < dx inp" by linarith
  from i have i': "i < nat (nx inp)" by simp
  from wave_vector_grid_bounds [OF d n i']
  have b: "0 < wave_vector_grid inp ! i" "wave_vector_grid inp ! i \<le> 2 * (real i + 1) * dx inp"
    by simp_all
  from i n have "Suc i \<le> 2 ^ 31" by linarith
  then have "real (Suc i) \<le> real (2 ^ 31)" by (simp only: of_nat_le_iff)
  then have "real i + 1 \<le> 2 ^ 31" by simp
  then have "2 * (real i + 1) * dx inp \<le> 2 * 2 ^ 31 * dx inp"
    using dp by (intro mult_right_mono mult_left_mono) simp_all
  with b(2) have ub: "wave_vector_grid inp ! i \<le> 2 ^ 32 * dx inp" by simp
  from b(1) have nn: "0 \<le> wave_vector_grid inp ! i" by simp
  from fl_add_spacing(1) [OF d nn ub] dp
  have "wave_vector_grid inp ! i < fl (wave_vector_grid inp ! i + dx inp)" by linarith
  then show ?thesis unfolding wave_vector_grid_chain [OF i] .
qed

lemma wave_vector_grid_exact:
  assumes e: "\<And>j. j < nat (nx inp) \<Longrightarrow> fl ((real j + 1 / 2) * dx inp) = (real j + 1 / 2) * dx inp"
    and i: "i < nat (nx inp)"
  shows "wave_vector_grid inp ! i = (real i + 1 / 2) * dx inp"
  using i
proof (induction i)
  case 0
  from e [OF 0] show ?case by (simp add: wave_vector_grid_first)
next
  case (Suc i)
  then have IH: "wave_vector_grid inp ! i = (real i + 1 / 2) * dx inp" by simp
  have "(real i + 1 / 2) * dx inp + dx inp = (real (Suc i) + 1 / 2) * dx inp"
    by (simp add: algebra_simps)
  with e [OF Suc.prems] show ?case
    unfolding wave_vector_grid_chain [OF Suc.prems] IH by simp
qed

lemma get_grid_size_value:
  assumes d: "2 powi (- 1021) \<le> dx inp" "dx inp \<le> 2 powi 990"
    and x: "dx inp < xmax inp" "xmax inp \<le> (2 ^ 31 - 1) * dx inp"
  shows "get_grid_size inp = Some (inp\<lparr>nx := \<lfloor>fl (xmax inp / dx inp)\<rfloor>\<rparr>)"
    "1 \<le> \<lfloor>fl (xmax inp / dx inp)\<rfloor>" "\<lfloor>fl (xmax inp / dx inp)\<rfloor> < 2 ^ 31"
proof -
  have "0 < (2::real) powi (- 1021)" by (rule zero_less_power_int) simp
  with d(1) have dp: "0 < dx inp" by linarith
  define q where "q = xmax inp / dx inp"
  have q1: "1 \<le> q" using x(1) dp by (simp add: q_def field_simps)
  have q2: "q \<le> 2 ^ 31 - 1" using x(2) dp by (simp add: q_def field_simps)
  have "(2 ^ 31 - 1 :: real) < 2 powi 1024" by simp
  with q2 have hi: "q < 2 powi 1024" by linarith
  have "(2::real) powi (- 1022) \<le> 2 powi 0" by (rule p2_leI) simp
  with q1 have lo: "2 powi (- 1022) \<le> q" by simp
  from fl_ge_one [OF q1 hi] have g1: "1 \<le> fl q" .
  have u: "(2::real) powi (- 53) = 1 / 2 ^ 53"
    by (simp add: power_int_minus_divide)
  from fl_rel_error [OF lo hi] have "\<bar>fl q - q\<bar> \<le> q / 2 ^ 53"
    unfolding u by simp
  then have "fl q - q \<le> q / 2 ^ 53" by (simp only: abs_le_iff)
  moreover have "q / 2 ^ 53 \<le> (2 ^ 31 - 1) / 2 ^ 53"
    using q2 by (intro divide_right_mono) simp_all
  ultimately have "fl q \<le> (2 ^ 31 - 1) + (2 ^ 31 - 1) / 2 ^ 53"
    using q2 by linarith
  also have "\<dots> < 2 ^ 31" by simp
  finally have g2: "fl q < 2 ^ 31" .
  from g1 show f1: "1 \<le> \<lfloor>fl (xmax inp / dx inp)\<rfloor>"
    unfolding q_def by (simp add: le_floor_iff)
  have "\<lfloor>fl q\<rfloor> < 2 ^ 31"
  proof -
    have "of_int \<lfloor>fl q\<rfloor> \<le> fl q" by simp
    with g2 have "(of_int \<lfloor>fl q\<rfloor> :: real) < of_int (2 ^ 31)" by simp
    then show ?thesis by (simp only: of_int_less_iff)
  qed
  then show f2: "\<lfloor>fl (xmax inp / dx inp)\<rfloor> < 2 ^ 31" unfolding q_def .
  from f1 f2 show "get_grid_size inp = Some (inp\<lparr>nx := \<lfloor>fl (xmax inp / dx inp)\<rfloor>\<rparr>)"
    by (simp add: get_grid_size_def c_double_to_int_def)
qed


lemma buildWvGrid_loop_returns:
  assumes d: "2 powi (- 1021) \<le> d" "d \<le> 2 powi 990"
    and x: "xm \<le> 2 ^ 32 * d"
  shows "wvg \<noteq> [] \<Longrightarrow> 0 \<le> last wvg
     \<Longrightarrow> (\<forall>i. Suc i < length wvg \<longrightarrow>
            wvg ! Suc i = fl (wvg ! i + d) \<and> wvg ! i < wvg ! Suc i \<and> wvg ! i < xm)
     \<Longrightarrow> (xm - last wvg) * 2 / d \<le> real n
     \<Longrightarrow> \<exists>c. buildWvGrid_loop d xm wvg = Some c \<and> (\<exists>ys. c = wvg @ ys) \<and> xm \<le> last c
            \<and> (\<forall>i. Suc i < length c \<longrightarrow>
                  c ! Suc i = fl (c ! i + d) \<and> c ! i < c ! Suc i \<and> c ! i < xm)
            \<and> (last wvg < xm \<longrightarrow> length wvg < length c)"
proof (induction n arbitrary: wvg)
  case 0
  have "0 < (2::real) powi (- 1021)" by (rule zero_less_power_int) simp
  with d(1) have dp: "0 < d" by linarith
  from "0.prems"(4) dp have "xm \<le> last wvg" by (simp add: field_simps)
  then have r: "buildWvGrid_loop d xm wvg = Some wvg"
    by (subst buildWvGrid_loop.simps) simp
  have a: "\<exists>ys. wvg = wvg @ ys" by simp
  have b: "last wvg < xm \<longrightarrow> length wvg < length wvg"
    using \<open>xm \<le> last wvg\<close> by simp
  from r a \<open>xm \<le> last wvg\<close> "0.prems"(3) b show ?case by blast
next
  case (Suc n)
  have "0 < (2::real) powi (- 1021)" by (rule zero_less_power_int) simp
  with d(1) have dp: "0 < d" by linarith
  show ?case
  proof (cases "last wvg < xm")
    case False
    then have r: "buildWvGrid_loop d xm wvg = Some wvg"
      by (subst buildWvGrid_loop.simps) simp
    have a: "\<exists>ys. wvg = wvg @ ys" by simp
    from False have b: "xm \<le> last wvg" by simp
    from r a b Suc.prems(3) False show ?thesis by blast
  next
    case True
    define new where "new = fl (last wvg + d)"
    from True x have ub: "last wvg \<le> 2 ^ 32 * d" by linarith
    from fl_add_spacing(1) [OF d Suc.prems(2) ub]
    have gr: "last wvg + d / 2 < new" unfolding new_def .
    have ne: "wvg @ [new] \<noteq> []" by simp
    have nn: "0 \<le> last (wvg @ [new])" using gr Suc.prems(2) dp by simp
    have ch: "\<forall>i. Suc i < length (wvg @ [new]) \<longrightarrow>
            (wvg @ [new]) ! Suc i = fl ((wvg @ [new]) ! i + d)
            \<and> (wvg @ [new]) ! i < (wvg @ [new]) ! Suc i \<and> (wvg @ [new]) ! i < xm"
    proof (intro allI impI)
      fix i
      assume i: "Suc i < length (wvg @ [new])"
      show "(wvg @ [new]) ! Suc i = fl ((wvg @ [new]) ! i + d)
            \<and> (wvg @ [new]) ! i < (wvg @ [new]) ! Suc i \<and> (wvg @ [new]) ! i < xm"
      proof (cases "Suc i < length wvg")
        case True
        then have e1: "(wvg @ [new]) ! Suc i = wvg ! Suc i" and e2: "(wvg @ [new]) ! i = wvg ! i"
          by (simp_all add: nth_append)
        from Suc.prems(3) True
        have f: "wvg ! Suc i = fl (wvg ! i + d) \<and> wvg ! i < wvg ! Suc i \<and> wvg ! i < xm"
          by blast
        show ?thesis unfolding e1 e2 by (rule f)
      next
        case False
        with i have e: "Suc i = length wvg" by simp
        then have il: "i = length wvg - 1" by simp
        have l: "wvg ! i = last wvg"
          unfolding il by (rule last_conv_nth [OF Suc.prems(1), symmetric])
        have a: "(wvg @ [new]) ! Suc i = new" using e by (simp add: nth_append)
        have b: "(wvg @ [new]) ! i = last wvg" using e l by (simp add: nth_append)
        from gr dp have "last wvg < new" by linarith
        with \<open>last wvg < xm\<close> show ?thesis unfolding a b by (simp add: new_def)
      qed
    qed
    have "(xm - new) * 2 / d \<le> (xm - last wvg - d / 2) * 2 / d"
      using gr dp by (intro divide_right_mono mult_right_mono) simp_all
    also have "\<dots> = (xm - last wvg) * 2 / d - 1"
      using dp by (simp add: field_simps)
    also have "\<dots> \<le> real n" using Suc.prems(4) by simp
    finally have ms: "(xm - last (wvg @ [new])) * 2 / d \<le> real n" by simp
    from Suc.IH [OF ne nn ch ms] obtain c ys where c:
        "buildWvGrid_loop d xm (wvg @ [new]) = Some c" "c = (wvg @ [new]) @ ys"
        "xm \<le> last c"
        "\<forall>i. Suc i < length c \<longrightarrow>
                  c ! Suc i = fl (c ! i + d) \<and> c ! i < c ! Suc i \<and> c ! i < xm"
      by blast
    have "buildWvGrid_loop d xm wvg = Some c"
      using True c(1) by (subst buildWvGrid_loop.simps) (simp add: new_def)
    moreover have "\<exists>zs. c = wvg @ zs" using c(2) by simp
    moreover have "length wvg < length c" using c(2) by simp
    ultimately show ?thesis using c(3,4) by blast
  qed
qed

lemma buildWvGrid_returns:
  assumes d: "2 powi (- 1021) \<le> d" "d \<le> 2 powi 990"
    and x: "d < xm" "xm \<le> (2 ^ 31 - 1) * d"
  shows "\<exists>c. buildWvGrid d xm = Inr (Some c) \<and> c ! 0 = 0 \<and> 2 \<le> length c \<and> xm \<le> last c
            \<and> (\<forall>i. Suc i < length c \<longrightarrow>
                  c ! Suc i = fl (c ! i + d) \<and> c ! i < c ! Suc i \<and> c ! i < xm)"
proof -
  have "0 < (2::real) powi (- 1021)" by (rule zero_less_power_int) simp
  with d(1) have dp: "0 < d" by linarith
  have "(2 ^ 31 - 1) * d \<le> 2 ^ 32 * d" using dp by (intro mult_right_mono) simp_all
  with x(2) have x32: "xm \<le> 2 ^ 32 * d" by linarith
  have m: "(xm - last [0]) * 2 / d \<le> real (nat \<lceil>xm * 2 / d\<rceil>)"
    by simp linarith
  have p1: "[0::real] \<noteq> []" by simp
  have p2: "0 \<le> last [0::real]" by simp
  have p3: "\<forall>i. Suc i < length [0::real] \<longrightarrow>
            [0] ! Suc i = fl ([0] ! i + d) \<and> [0::real] ! i < [0] ! Suc i \<and> [0] ! i < xm"
    by simp
  from buildWvGrid_loop_returns [OF d x32 p1 p2 p3 m]
  obtain c ys where c: "buildWvGrid_loop d xm [0] = Some c" "c = [0] @ ys" "xm \<le> last c"
      "\<forall>i. Suc i < length c \<longrightarrow>
                  c ! Suc i = fl (c ! i + d) \<and> c ! i < c ! Suc i \<and> c ! i < xm"
      "last [0] < xm \<longrightarrow> length [0::real] < length c"
    by blast
  from x(1) dp c(5) have "2 \<le> length c" by simp
  moreover from c(2) have "c ! 0 = 0" by simp
  moreover from x(1) c(1) have "buildWvGrid d xm = Inr (Some c)"
    by (simp add: buildWvGrid_def)
  ultimately show ?thesis using c(3,4) by blast
qed

lemma c4_sel: "dx input_c4 = 1" "xmax input_c4 = 2"
  by (simp_all add: input_c4_def input0_def)

lemma c4_grid_size: "get_grid_size input_c4 = Some (input_c4\<lparr>nx := 2\<rparr>)"
  by (simp add: get_grid_size_def c_double_to_int_def c4_sel fl_eval)

lemma c4_grid: "wave_vector_grid (input_c4\<lparr>nx := 2\<rparr>) = [1 / 2, 3 / 2]"
  by (simp add: wave_vector_grid_def c4_sel numeral_2_eq_2 fl_eval)

lemma c4_cxx: "buildWvGrid 1 2 = Inr (Some [0, 1, 2])"
  by (simp add: buildWvGrid_def buildWvGrid_loop.simps fl_eval)

text \<open>The claim as stated fails for the C++ grid: for \<open>dx = 1\<close>, \<open>xmax = 2\<close>
  \<open>Rpa::buildWvGrid\<close> builds the three points \<open>0, 1, 2\<close>, the first of them \<open>0\<close>, while
  the C routines build the two points \<open>1/2, 3/2\<close>. No operation is rounded on this
  input.\<close>

theorem wave_vector_grid_cxx_counterexample:
  "buildWvGrid 1 2 = Inr (Some [0, 1, 2])
   \<and> get_grid_size input_c4 = Some (input_c4\<lparr>nx := 2\<rparr>)
   \<and> wave_vector_grid (input_c4\<lparr>nx := 2\<rparr>) = [1 / 2, 3 / 2]"
  by (simp only: c4_cxx c4_grid_size c4_grid simp_thms)

text \<open>The claim's numbers are those of exact arithmetic; the code computes in double
  precision. For the default grid \<open>dx = 0.1\<close>, \<open>xmax = 20.0\<close> the exact quotient of the
  two doubles is below \<open>200\<close> and has the floor \<open>199\<close>, while the rounded quotient is
  \<open>200\<close> and the grid has \<open>200\<close> points; the sums \<open>x[i] + dx\<close> are rounded, so that
  neighbouring points need not differ by \<open>dx\<close>; and for \<open>dx = 0.1\<close>, \<open>xmax = 1.0\<close> the C++
  loop builds twelve points, because the tenth sum is rounded to a double below \<open>1\<close>.\<close>

lemma double_tenth_literal: "fl (1 / 10) = double_tenth"
  by (simp add: double_tenth_def fl_eval)

lemma c4_tenth_size:
  "get_grid_size input_c4_tenth = Some (input_c4_tenth\<lparr>nx := 200\<rparr>)"
  "\<lfloor>xmax input_c4_tenth / dx input_c4_tenth\<rfloor> = 199"
  by (simp_all add: get_grid_size_def c_double_to_int_def input_c4_tenth_def input0_def
        double_tenth_def fl_eval)

lemma c4_tenth_cxx:
  "buildWvGrid double_tenth 1
     = Inr (Some [0, 3602879701896397 / 36028797018963968, 3602879701896397 / 18014398509481984,
          1351079888211149 / 4503599627370496, 3602879701896397 / 9007199254740992,
          1 / 2, 5404319552844595 / 9007199254740992, 3152519739159347 / 4503599627370496,
          7205759403792793 / 9007199254740992, 2026619832316723 / 2251799813685248,
          9007199254740991 / 9007199254740992, 4953959590107545 / 4503599627370496])"
  by (simp add: buildWvGrid_def buildWvGrid_loop.simps double_tenth_def fl_eval)


lemma c4_tenth_grid:
  "wave_vector_grid (input_c4_tenth\<lparr>nx := 3\<rparr>)
     = [3602879701896397 / 72057594037927936, 1351079888211149 / 9007199254740992, 1 / 4]"
  "wave_vector_grid (input_c4_tenth\<lparr>nx := 3\<rparr>) ! 2
     - wave_vector_grid (input_c4_tenth\<lparr>nx := 3\<rparr>) ! 1 \<noteq> dx input_c4_tenth"
  by (simp_all add: wave_vector_grid_def input_c4_tenth_def input0_def double_tenth_def
        numeral_3_eq_3 fl_eval)

lemma c4_tenth_sel: "dx input_c4_tenth = double_tenth" "xmax input_c4_tenth = 20"
  by (simp_all add: input_c4_tenth_def input0_def)

lemma c4_tenth_range:
  "2 powi (- 1021) \<le> dx input_c4_tenth" "dx input_c4_tenth \<le> 2 powi 990"
  "dx input_c4_tenth < xmax input_c4_tenth"
  "xmax input_c4_tenth \<le> (2 ^ 31 - 1) * dx input_c4_tenth"
  "fl (dx input_c4_tenth) = dx input_c4_tenth"
  "\<lfloor>fl (xmax input_c4_tenth / dx input_c4_tenth)\<rfloor> = 200"
  by (simp_all add: c4_tenth_sel double_tenth_def fl_eval)

text \<open>
  C4 (as amended). Let \<open>dx\<close> be in the range \<open>2^(-1021) \<le> dx \<le> 2^990\<close> and
  \<open>dx < xmax \<le> (2^31 - 1) dx\<close>, so that no operation underflows or overflows and the
  number of points is an \<open>int\<close>. Then the grid of the C program (\<open>get_grid_size\<close> followed
  by \<open>wave_vector_grid\<close>) has exactly \<open>N = floor (xmax/dx)\<close> points, the quotient being
  the rounded quotient of double arithmetic, and \<open>N \<ge> 1\<close>; \<open>x[0]\<close> is the rounded half of
  \<open>dx\<close>, which is \<open>dx/2\<close> when \<open>dx\<close> is a double; \<open>x[i+1]\<close> is the rounded sum \<open>x[i] + dx\<close>;
  every grid point is strictly positive and the grid is strictly increasing; and where
  the numbers \<open>(i + 1/2) dx\<close> are doubles, so that no sum is rounded, \<open>x[i] = (i + 1/2) dx\<close>.
  \<open>Rpa::buildWvGrid\<close> of the C++ code builds another grid: it starts at \<open>x[0] = 0\<close>,
  \<open>x[i+1]\<close> is the rounded sum \<open>x[i] + dx\<close>, all points but the last are below \<open>xmax\<close> and
  the last one is not; it has at least two points and is strictly increasing.
\<close>

theorem wave_vector_grid_points:
  fixes inp :: rinput
  defines "N \<equiv> \<lfloor>fl (xmax inp / dx inp)\<rfloor>"
  defines "g \<equiv> wave_vector_grid (inp\<lparr>nx := \<lfloor>fl (xmax inp / dx inp)\<rfloor>\<rparr>)"
  assumes "2 powi (- 1021) \<le> dx inp" and "dx inp \<le> 2 powi 990"
    and "dx inp < xmax inp" and "xmax inp \<le> (2 ^ 31 - 1) * dx inp"
  shows "get_grid_size inp = Some (inp\<lparr>nx := N\<rparr>) \<and> 1 \<le> N \<and> length g = nat N
     \<and> g ! 0 = fl (dx inp / 2) \<and> (fl (dx inp) = dx inp \<longrightarrow> g ! 0 = dx inp / 2)
     \<and> (\<forall>i<nat N. 0 < g ! i)
     \<and> (\<forall>i. Suc i < nat N \<longrightarrow> g ! Suc i = fl (g ! i + dx inp) \<and> g ! i < g ! Suc i)
     \<and> ((\<forall>i<nat N. fl ((real i + 1 / 2) * dx inp) = (real i + 1 / 2) * dx inp)
          \<longrightarrow> (\<forall>i<nat N. g ! i = (real i + 1 / 2) * dx inp))
     \<and> (\<exists>c. buildWvGrid (dx inp) (xmax inp) = Inr (Some c) \<and> c ! 0 = 0 \<and> 2 \<le> length c
            \<and> xmax inp \<le> last c
            \<and> (\<forall>i. Suc i < length c \<longrightarrow>
                  c ! Suc i = fl (c ! i + dx inp) \<and> c ! i < c ! Suc i \<and> c ! i < xmax inp))"
proof -
  let ?inp = "inp\<lparr>nx := N\<rparr>"
  note d = assms(3,4)
  note x = assms(5,6)
  have gN: "g = wave_vector_grid ?inp" by (simp add: g_def N_def)
  have sel: "dx ?inp = dx inp" "nx ?inp = N" by simp_all
  from get_grid_size_value [OF d x]
  have s: "get_grid_size inp = Some ?inp" and n1: "1 \<le> N" and n2: "N < 2 ^ 31"
    by (simp_all add: N_def)
  from n2 have nn: "nat (nx ?inp) \<le> 2 ^ 31" by simp
  have d': "2 powi (- 1021) \<le> dx ?inp" "dx ?inp \<le> 2 powi 990" using d by simp_all
  have len: "length g = nat N"
    unfolding gN using wave_vector_grid_length [of ?inp] n1 by simp
  have first: "g ! 0 = fl (dx inp / 2)"
    unfolding gN using wave_vector_grid_first [of ?inp] by simp
  have half: "fl (dx inp) = dx inp \<longrightarrow> g ! 0 = dx inp / 2"
    unfolding first using fl_half_spacing(3) [OF d] by blast
  have pos: "\<forall>i<nat N. 0 < g ! i"
  proof (intro allI impI)
    fix i assume "i < nat N"
    then have "i < nat (nx ?inp)" by simp
    from wave_vector_grid_bounds [OF d' nn this] show "0 < g ! i"
      unfolding gN by blast
  qed
  have step: "\<forall>i. Suc i < nat N \<longrightarrow> g ! Suc i = fl (g ! i + dx inp) \<and> g ! i < g ! Suc i"
  proof (intro allI impI)
    fix i assume "Suc i < nat N"
    then have i: "Suc i < nat (nx ?inp)" by simp
    from wave_vector_grid_chain [OF i] wave_vector_grid_increasing [OF d' nn i]
    show "g ! Suc i = fl (g ! i + dx inp) \<and> g ! i < g ! Suc i"
      unfolding gN by simp
  qed
  have exact: "(\<forall>i<nat N. fl ((real i + 1 / 2) * dx inp) = (real i + 1 / 2) * dx inp)
          \<longrightarrow> (\<forall>i<nat N. g ! i = (real i + 1 / 2) * dx inp)"
  proof (intro allI impI)
    fix i
    assume e: "\<forall>i<nat N. fl ((real i + 1 / 2) * dx inp) = (real i + 1 / 2) * dx inp"
      and i: "i < nat N"
    have e': "fl ((real j + 1 / 2) * dx ?inp) = (real j + 1 / 2) * dx ?inp"
      if "j < nat (nx ?inp)" for j
      using e that by simp
    from i have "i < nat (nx ?inp)" by simp
    from wave_vector_grid_exact [of ?inp, OF e' this]
    show "g ! i = (real i + 1 / 2) * dx inp"
      unfolding gN by simp
  qed
  note cxx = buildWvGrid_returns [OF d x]
  from s n1 len first half pos step exact cxx show ?thesis by blast
qed

theorem wave_vector_grid_points_witness:
  "2 powi (- 1021) \<le> dx input_c4 \<and> dx input_c4 \<le> 2 powi 990
   \<and> dx input_c4 < xmax input_c4 \<and> xmax input_c4 \<le> (2 ^ 31 - 1) * dx input_c4
   \<and> fl (dx input_c4) = dx input_c4
   \<and> fl ((real 0 + 1 / 2) * dx input_c4) = (real 0 + 1 / 2) * dx input_c4
   \<and> fl ((real 1 + 1 / 2) * dx input_c4) = (real 1 + 1 / 2) * dx input_c4
   \<and> get_grid_size input_c4 = Some (input_c4\<lparr>nx := 2\<rparr>)
   \<and> length (wave_vector_grid (input_c4\<lparr>nx := 2\<rparr>)) = 2
   \<and> wave_vector_grid (input_c4\<lparr>nx := 2\<rparr>) ! 0 = 1 / 2
   \<and> wave_vector_grid (input_c4\<lparr>nx := 2\<rparr>) ! 1 = 3 / 2
   \<and> wave_vector_grid (input_c4\<lparr>nx := 2\<rparr>) ! 0 < wave_vector_grid (input_c4\<lparr>nx := 2\<rparr>) ! 1
   \<and> (\<exists>c. buildWvGrid 1 2 = Inr (Some c) \<and> c ! 0 = 0 \<and> 2 \<le> last c)
   \<and> 2 powi (- 1021) \<le> dx input_c4_tenth \<and> dx input_c4_tenth \<le> 2 powi 990
   \<and> dx input_c4_tenth < xmax input_c4_tenth
   \<and> xmax input_c4_tenth \<le> (2 ^ 31 - 1) * dx input_c4_tenth
   \<and> fl (dx input_c4_tenth) = dx input_c4_tenth
   \<and> get_grid_size input_c4_tenth = Some (input_c4_tenth\<lparr>nx := 200\<rparr>)
   \<and> length (wave_vector_grid (input_c4_tenth\<lparr>nx := 200\<rparr>)) = 200
   \<and> wave_vector_grid (input_c4_tenth\<lparr>nx := 200\<rparr>) ! 0 = double_tenth / 2
   \<and> 0 < wave_vector_grid (input_c4_tenth\<lparr>nx := 200\<rparr>) ! 199
   \<and> wave_vector_grid (input_c4_tenth\<lparr>nx := 200\<rparr>) ! 198
        < wave_vector_grid (input_c4_tenth\<lparr>nx := 200\<rparr>) ! 199"
proof -
  have h: "2 powi (- 1021) \<le> dx input_c4" "dx input_c4 \<le> 2 powi 990"
      "dx input_c4 < xmax input_c4" "xmax input_c4 \<le> (2 ^ 31 - 1) * dx input_c4"
    by (simp_all add: c4_sel)
  have r: "fl (dx input_c4) = dx input_c4"
      "fl ((real 0 + 1 / 2) * dx input_c4) = (real 0 + 1 / 2) * dx input_c4"
      "fl ((real 1 + 1 / 2) * dx input_c4) = (real 1 + 1 / 2) * dx input_c4"
    by (simp_all add: c4_sel fl_eval)
  have N: "\<lfloor>fl (xmax input_c4 / dx input_c4)\<rfloor> = 2"
    by (simp add: c4_sel fl_eval)
  have e: "\<forall>i<nat 2. fl ((real i + 1 / 2) * dx input_c4) = (real i + 1 / 2) * dx input_c4"
  proof (intro allI impI)
    fix i :: nat assume "i < nat 2"
    then have "i = 0 \<or> i = 1" by auto
    with r(2,3) show "fl ((real i + 1 / 2) * dx input_c4) = (real i + 1 / 2) * dx input_c4"
      by auto
  qed
  note t = wave_vector_grid_points [OF h, unfolded N]
  from t have a: "get_grid_size input_c4 = Some (input_c4\<lparr>nx := 2\<rparr>)"
      "length (wave_vector_grid (input_c4\<lparr>nx := 2\<rparr>)) = nat 2"
    by blast+
  from t r(1) have b: "wave_vector_grid (input_c4\<lparr>nx := 2\<rparr>) ! 0 = dx input_c4 / 2"
    by blast
  from t e have ex: "\<forall>i<nat 2. wave_vector_grid (input_c4\<lparr>nx := 2\<rparr>) ! i
      = (real i + 1 / 2) * dx input_c4"
    by blast
  then have c: "wave_vector_grid (input_c4\<lparr>nx := 2\<rparr>) ! 1 = (real 1 + 1 / 2) * dx input_c4"
    by simp
  from t have "\<forall>i. Suc i < nat 2 \<longrightarrow>
      wave_vector_grid (input_c4\<lparr>nx := 2\<rparr>) ! i < wave_vector_grid (input_c4\<lparr>nx := 2\<rparr>) ! Suc i"
    by blast
  then have m: "wave_vector_grid (input_c4\<lparr>nx := 2\<rparr>) ! 0
      < wave_vector_grid (input_c4\<lparr>nx := 2\<rparr>) ! 1"
    by simp
  from t have "\<exists>c. buildWvGrid (dx input_c4) (xmax input_c4) = Inr (Some c) \<and> c ! 0 = 0
      \<and> xmax input_c4 \<le> last c"
    by blast
  then have x: "\<exists>c. buildWvGrid 1 2 = Inr (Some c) \<and> c ! 0 = 0 \<and> 2 \<le> last c"
    by (simp add: c4_sel)
  from h r a b c m x have first: "2 powi (- 1021) \<le> dx input_c4 \<and> dx input_c4 \<le> 2 powi 990
   \<and> dx input_c4 < xmax input_c4 \<and> xmax input_c4 \<le> (2 ^ 31 - 1) * dx input_c4
   \<and> fl (dx input_c4) = dx input_c4
   \<and> fl ((real 0 + 1 / 2) * dx input_c4) = (real 0 + 1 / 2) * dx input_c4
   \<and> fl ((real 1 + 1 / 2) * dx input_c4) = (real 1 + 1 / 2) * dx input_c4
   \<and> get_grid_size input_c4 = Some (input_c4\<lparr>nx := 2\<rparr>)
   \<and> length (wave_vector_grid (input_c4\<lparr>nx := 2\<rparr>)) = 2
   \<and> wave_vector_grid (input_c4\<lparr>nx := 2\<rparr>) ! 0 = 1 / 2
   \<and> wave_vector_grid (input_c4\<lparr>nx := 2\<rparr>) ! 1 = 3 / 2
   \<and> wave_vector_grid (input_c4\<lparr>nx := 2\<rparr>) ! 0 < wave_vector_grid (input_c4\<lparr>nx := 2\<rparr>) ! 1
   \<and> (\<exists>c. buildWvGrid 1 2 = Inr (Some c) \<and> c ! 0 = 0 \<and> 2 \<le> last c)"
    by (simp add: c4_sel)
  note t' = wave_vector_grid_points [OF c4_tenth_range(1-4), unfolded c4_tenth_range(6)]
  from t' have a': "get_grid_size input_c4_tenth = Some (input_c4_tenth\<lparr>nx := 200\<rparr>)"
      "length (wave_vector_grid (input_c4_tenth\<lparr>nx := 200\<rparr>)) = nat 200"
    by blast+
  from t' c4_tenth_range(5)
  have b': "wave_vector_grid (input_c4_tenth\<lparr>nx := 200\<rparr>) ! 0 = dx input_c4_tenth / 2"
    by blast
  from t' have "\<forall>i<nat 200. 0 < wave_vector_grid (input_c4_tenth\<lparr>nx := 200\<rparr>) ! i"
    by blast
  then have c': "0 < wave_vector_grid (input_c4_tenth\<lparr>nx := 200\<rparr>) ! 199" by simp
  from t' have "\<forall>i. Suc i < nat 200 \<longrightarrow>
      wave_vector_grid (input_c4_tenth\<lparr>nx := 200\<rparr>) ! i
        < wave_vector_grid (input_c4_tenth\<lparr>nx := 200\<rparr>) ! Suc i"
    by blast
  then have "Suc 198 < nat 200 \<longrightarrow>
      wave_vector_grid (input_c4_tenth\<lparr>nx := 200\<rparr>) ! 198
        < wave_vector_grid (input_c4_tenth\<lparr>nx := 200\<rparr>) ! Suc 198"
    by (rule spec)
  then have m': "wave_vector_grid (input_c4_tenth\<lparr>nx := 200\<rparr>) ! 198
        < wave_vector_grid (input_c4_tenth\<lparr>nx := 200\<rparr>) ! 199"
    by simp
  from a' b' c' m' have second: "get_grid_size input_c4_tenth = Some (input_c4_tenth\<lparr>nx := 200\<rparr>)
   \<and> length (wave_vector_grid (input_c4_tenth\<lparr>nx := 200\<rparr>)) = 200
   \<and> wave_vector_grid (input_c4_tenth\<lparr>nx := 200\<rparr>) ! 0 = double_tenth / 2
   \<and> 0 < wave_vector_grid (input_c4_tenth\<lparr>nx := 200\<rparr>) ! 199
   \<and> wave_vector_grid (input_c4_tenth\<lparr>nx := 200\<rparr>) ! 198
        < wave_vector_grid (input_c4_tenth\<lparr>nx := 200\<rparr>) ! 199"
    by (simp add: c4_tenth_sel)
  from first c4_tenth_range(1-5) second show ?thesis by blast
qed

text \<open>The points at which the C program evaluates the Hartree-Fock integrand are grid
  points, and there the C and the C++ integrand agree.\<close>

lemma ssfHF_on_grid:
  assumes "2 powi (- 1021) \<le> dx inp" "dx inp \<le> 2 powi 990"
    and "nat (nx inp) \<le> 2 ^ 31" and "i < nat (nx inp)"
  shows "ssfHF yy (wave_vector_grid inp ! i) inp
           = SsfHF_integrand (wave_vector_grid inp ! i) (Theta inp) (mu inp) yy"
  using wave_vector_grid_bounds [OF assms] by (intro ssfHF_pos_same) simp

subsection \<open>The STLS iteration\<close>

lemma stls_step_counter:
  "st_iter_counter (stls_step inp SSHF phi xx st) = st_iter_counter st + 1"
  by (simp add: stls_step_def Let_def)

lemma stls_funpow_counter:
  "st_iter_counter ((stls_step inp SSHF phi xx ^^ n) st) = st_iter_counter st + int n"
  by (induction n) (simp_all add: stls_step_counter)

lemma stls_loop_funpow:
  "\<exists>n. stls_loop inp SSHF phi xx st = (stls_step inp SSHF phi xx ^^ n) st
       \<and> (\<forall>k<n. stls_guard inp ((stls_step inp SSHF phi xx ^^ k) st))
       \<and> \<not> stls_guard inp ((stls_step inp SSHF phi xx ^^ n) st)"
proof (induction inp SSHF phi xx st rule: stls_loop.induct)
  case (1 inp SSHF phi xx st)
  let ?f = "stls_step inp SSHF phi xx"
  show ?case
  proof (cases "stls_guard inp st")
    case False
    then have "stls_loop inp SSHF phi xx st = (?f ^^ 0) st
       \<and> (\<forall>k<0. stls_guard inp ((?f ^^ k) st)) \<and> \<not> stls_guard inp ((?f ^^ 0) st)"
      by (subst stls_loop.simps) simp
    then show ?thesis by blast
  next
    case True
    from "1.IH" [OF True] obtain n where
      n: "stls_loop inp SSHF phi xx (?f st) = (?f ^^ n) (?f st)"
         "\<forall>k<n. stls_guard inp ((?f ^^ k) (?f st))"
         "\<not> stls_guard inp ((?f ^^ n) (?f st))"
      by blast
    have sw: "(?f ^^ Suc j) st = (?f ^^ j) (?f st)" for j
      by (simp only: funpow_Suc_right o_apply)
    have "stls_loop inp SSHF phi xx st = stls_loop inp SSHF phi xx (?f st)"
      using True by (subst stls_loop.simps) simp
    then have a: "stls_loop inp SSHF phi xx st = (?f ^^ Suc n) st"
      unfolding sw using n(1) by simp
    have b: "stls_guard inp ((?f ^^ k) st)" if "k < Suc n" for k
    proof (cases k)
      case 0
      then show ?thesis using True by simp
    next
      case (Suc j)
      with that have "j < n" by simp
      with n(2) show ?thesis unfolding Suc sw by blast
    qed
    have c: "\<not> stls_guard inp ((?f ^^ Suc n) st)"
      unfolding sw using n(3) .
    from a b c show ?thesis by blast
  qed
qed


lemma stls_init_fields:
  "st_GG (stls_init inp SSHF phi xx) = replicate (nat (nx inp)) 0"
  "st_GG_new (stls_init inp SSHF phi xx) = replicate (nat (nx inp)) 1"
  "st_SS (stls_init inp SSHF phi xx) = compute_ssf SSHF (replicate (nat (nx inp)) 0) phi xx inp"
  "st_iter_err (stls_init inp SSHF phi xx) = 1"
  "st_iter_counter (stls_init inp SSHF phi xx) = 0"
  by (simp_all add: stls_init_def Let_def map_replicate_const)

lemma stls_step_fields:
  "st_GG_new (stls_step inp SSHF phi xx st) = compute_slfc (st_SS st) xx inp"
  "st_iter_err (stls_step inp SSHF phi xx st)
     = sqrt (\<Sum>ii<nat (nx inp). (compute_slfc (st_SS st) xx inp ! ii - st_GG st ! ii)\<^sup>2)"
  "length (st_GG (stls_step inp SSHF phi xx st)) = nat (nx inp)"
  "ii < nat (nx inp) \<Longrightarrow> st_GG (stls_step inp SSHF phi xx st) ! ii
     = a_mix inp * compute_slfc (st_SS st) xx inp ! ii + (1 - a_mix inp) * st_GG st ! ii"
  "st_SS (stls_step inp SSHF phi xx st)
     = compute_ssf SSHF (st_GG (stls_step inp SSHF phi xx st)) phi xx inp"
  by (simp_all add: stls_step_def Let_def foldl_add_sum power2_eq_square)

text \<open>
  C2. With \<open>init\<close> the state before the loop, \<open>step\<close> the loop body and \<open>res\<close> the state
  after the loop: \<open>init\<close> has \<open>G = 0\<close>, \<open>G_new = 1\<close>, \<open>S\<close> computed from this \<open>G\<close>, residual
  variable \<open>1\<close> and counter \<open>0\<close>; one step computes \<open>G_new\<close> from the current \<open>S\<close>, sets the
  residual to the Euclidean norm of \<open>G_new - G\<close> for the \<open>G\<close> before mixing, replaces \<open>G\<close> by
  \<open>a_mix G_new + (1 - a_mix) G\<close>, recomputes \<open>S\<close> and adds one to the counter; and \<open>res\<close> is
  reached after \<open>n\<close> steps, where \<open>n \<le> nIter\<close>, before each of the \<open>n\<close> steps the counter was
  below \<open>nIter\<close> and the residual above \<open>err_min_iter\<close>, and at the end the residual is at
  most \<open>err_min_iter\<close> or \<open>n\<close> has reached \<open>nIter\<close>. With \<open>nIter = 0\<close> no step runs.
\<close>

theorem solve_stls_iterations_loop:
  fixes inp :: rinput and SSHF phi xx :: "real list"
  defines "step \<equiv> stls_step inp SSHF phi xx"
    and "init \<equiv> stls_init inp SSHF phi xx"
    and "res \<equiv> solve_stls_iterations inp SSHF phi xx"
  shows "st_GG init = replicate (nat (nx inp)) 0
         \<and> st_GG_new init = replicate (nat (nx inp)) 1
         \<and> st_SS init = compute_ssf SSHF (st_GG init) phi xx inp
         \<and> st_iter_err init = 1 \<and> st_iter_counter init = 0
         \<and> st_GG_new (step st) = compute_slfc (st_SS st) xx inp
         \<and> st_iter_err (step st)
             = sqrt (\<Sum>ii<nat (nx inp). (st_GG_new (step st) ! ii - st_GG st ! ii)\<^sup>2)
         \<and> (\<forall>ii<nat (nx inp). st_GG (step st) ! ii
               = a_mix inp * st_GG_new (step st) ! ii + (1 - a_mix inp) * st_GG st ! ii)
         \<and> st_SS (step st) = compute_ssf SSHF (st_GG (step st)) phi xx inp
         \<and> st_iter_counter (step st) = st_iter_counter st + 1
         \<and> (\<exists>n. res = (step ^^ n) init
                \<and> n \<le> nat (nIter inp)
                \<and> st_iter_counter res = int n
                \<and> (\<forall>k<n. int k < nIter inp \<and> st_iter_err ((step ^^ k) init) > err_min_iter inp)
                \<and> (st_iter_err res \<le> err_min_iter inp \<or> int n = max 0 (nIter inp)))
         \<and> (nIter inp \<le> 0 \<longrightarrow> res = init)"
proof -
  from stls_loop_funpow [of inp SSHF phi xx "stls_init inp SSHF phi xx"]
  obtain n where n: "res = (step ^^ n) init"
      "\<forall>k<n. stls_guard inp ((step ^^ k) init)"
      "\<not> stls_guard inp ((step ^^ n) init)"
    unfolding step_def init_def res_def solve_stls_iterations_def by blast
  have cnt: "st_iter_counter ((step ^^ k) init) = int k" for k
    unfolding step_def init_def by (simp add: stls_funpow_counter stls_init_fields)
  have g: "int k < nIter inp \<and> st_iter_err ((step ^^ k) init) > err_min_iter inp" if "k < n" for k
    using n(2) that cnt [of k] by (auto simp: stls_guard_def)
  have le: "n \<le> nat (nIter inp)"
  proof (cases n)
    case 0
    then show ?thesis by simp
  next
    case (Suc j)
    then have "int j < nIter inp" using g [of j] by simp
    with Suc show ?thesis by simp
  qed
  have stop: "st_iter_err res \<le> err_min_iter inp \<or> int n = max 0 (nIter inp)"
    using n(3) le cnt [of n] unfolding n(1) [symmetric] stls_guard_def by auto
  have zero: "nIter inp \<le> 0 \<longrightarrow> res = init"
    using le n(1) by auto
  have ex: "\<exists>n. res = (step ^^ n) init
                \<and> n \<le> nat (nIter inp)
                \<and> st_iter_counter res = int n
                \<and> (\<forall>k<n. int k < nIter inp \<and> st_iter_err ((step ^^ k) init) > err_min_iter inp)
                \<and> (st_iter_err res \<le> err_min_iter inp \<or> int n = max 0 (nIter inp))"
    using n(1) le cnt [of n] g stop by (intro exI [of _ n]) simp
  show ?thesis
    unfolding step_def init_def
    using ex [unfolded step_def init_def] zero [unfolded init_def]
    by (simp add: stls_init_fields stls_step_fields stls_step_counter)
qed


lemma c2_first_step:
  "stls_step input_c2 [1] [1] [1 / 2] (stls_init input_c2 [1] [1] [1 / 2])
     = \<lparr>st_GG = [0], st_GG_new = [0], st_SS = compute_ssf [1] [0] [1] [1 / 2] input_c2,
        st_iter_err = 0, st_iter_counter = 1\<rparr>"
  by (simp add: stls_step_def stls_init_def Let_def compute_slfc_def slfc_point_def
        input_c2_def input0_def)

lemma c2_run:
  "solve_stls_iterations input_c2 [1] [1] [1 / 2]
     = \<lparr>st_GG = [0], st_GG_new = [0], st_SS = compute_ssf [1] [0] [1] [1 / 2] input_c2,
        st_iter_err = 0, st_iter_counter = 1\<rparr>"
proof -
  have g0: "stls_guard input_c2 (stls_init input_c2 [1] [1] [1 / 2])"
    by (simp add: stls_guard_def stls_init_def Let_def input_c2_def input0_def)
  have g1: "\<not> stls_guard input_c2 \<lparr>st_GG = [0], st_GG_new = [0],
        st_SS = compute_ssf [1] [0] [1] [1 / 2] input_c2, st_iter_err = 0, st_iter_counter = 1\<rparr>"
    by (simp add: stls_guard_def input_c2_def input0_def)
  show ?thesis
    unfolding solve_stls_iterations_def
    by (subst stls_loop.simps, simp only: g0 if_True c2_first_step,
        subst stls_loop.simps, simp only: g1 if_False)
qed

theorem solve_stls_iterations_loop_witness:
  "st_iter_counter (solve_stls_iterations input_c2 [1] [1] [1 / 2]) = 1
   \<and> st_iter_err (solve_stls_iterations input_c2 [1] [1] [1 / 2]) \<le> err_min_iter input_c2
   \<and> (\<exists>n \<le> nat (nIter input_c2). solve_stls_iterations input_c2 [1] [1] [1 / 2]
        = (stls_step input_c2 [1] [1] [1 / 2] ^^ n) (stls_init input_c2 [1] [1] [1 / 2]))"
proof -
  from solve_stls_iterations_loop [of input_c2 "[1]" "[1]" "[1 / 2]"
         "stls_init input_c2 [1] [1] [1 / 2]"]
  obtain n where "solve_stls_iterations input_c2 [1] [1] [1 / 2]
        = (stls_step input_c2 [1] [1] [1 / 2] ^^ n) (stls_init input_c2 [1] [1] [1 / 2])"
      and "n \<le> nat (nIter input_c2)"
    by blast
  then have ex: "\<exists>n \<le> nat (nIter input_c2). solve_stls_iterations input_c2 [1] [1] [1 / 2]
        = (stls_step input_c2 [1] [1] [1 / 2] ^^ n) (stls_init input_c2 [1] [1] [1 / 2])"
    by blast
  have "st_iter_counter (solve_stls_iterations input_c2 [1] [1] [1 / 2]) = 1"
    and "st_iter_err (solve_stls_iterations input_c2 [1] [1] [1 / 2]) \<le> err_min_iter input_c2"
    unfolding c2_run by (simp_all add: input_c2_def input0_def)
  with ex show ?thesis by blast
qed

subsection \<open>The chemical potential loop\<close>

lemma mu_loop_unfold:
  "mu_loop g s iter cnt =
     (if gsl_error (mu_test g (gsl_root_fsolver_iterate g s)) then Inl ABORT
      else if mu_test g (gsl_root_fsolver_iterate g s) = GSL_CONTINUE \<and> iter + 1 < 100
      then mu_loop g (gsl_root_fsolver_iterate g s) (iter + 1) (Suc cnt)
      else Inr (gsl_root_fsolver_root g (gsl_root_fsolver_iterate g s), Suc cnt))"
  by (subst mu_loop.simps) (simp add: Let_def mu_test_def)

lemma funpow_Suc_inner: "(f ^^ Suc k) s = (f ^^ k) (f s)"
  by (simp only: funpow_Suc_right o_apply)

lemma mu_loop_trace:
  "\<exists>n\<ge>1. (\<forall>k. 1 \<le> k \<and> k < n \<longrightarrow>
               mu_test g ((gsl_root_fsolver_iterate g ^^ k) s) = GSL_CONTINUE
               \<and> iter + int k < 100)
        \<and> (if gsl_error (mu_test g ((gsl_root_fsolver_iterate g ^^ n) s))
           then mu_loop g s iter cnt = Inl ABORT
           else mu_loop g s iter cnt
                  = Inr (gsl_root_fsolver_root g ((gsl_root_fsolver_iterate g ^^ n) s), cnt + n)
                \<and> (mu_test g ((gsl_root_fsolver_iterate g ^^ n) s) = GSL_SUCCESS
                    \<or> 100 \<le> iter + int n))"
proof (induction g s iter cnt rule: mu_loop.induct)
  case (1 g s iter cnt)
  let ?it = "gsl_root_fsolver_iterate g"
  let ?c = "\<not> gsl_error (mu_test g (?it s)) \<and> mu_test g (?it s) = GSL_CONTINUE \<and> iter + 1 < 100"
  show ?case
  proof (cases ?c)
    case False
    have v: "\<forall>k. 1 \<le> k \<and> k < (1::nat) \<longrightarrow>
               mu_test g ((?it ^^ k) s) = GSL_CONTINUE \<and> iter + int k < 100"
      by simp
    have "if gsl_error (mu_test g ((?it ^^ 1) s))
           then mu_loop g s iter cnt = Inl ABORT
           else mu_loop g s iter cnt = Inr (gsl_root_fsolver_root g ((?it ^^ 1) s), cnt + 1)
                \<and> (mu_test g ((?it ^^ 1) s) = GSL_SUCCESS \<or> 100 \<le> iter + int 1)"
      using False by (subst (1 2) mu_loop_unfold) (auto simp: gsl_error_def)
    with v show ?thesis by (intro exI [of _ 1]) simp
  next
    case True
    then have ne: "\<not> gsl_error (mu_test g (?it s))"
      and co: "mu_test g (?it s) = GSL_CONTINUE" and lt: "iter + 1 < 100"
      by blast+
    have "\<exists>n\<ge>1. (\<forall>k. 1 \<le> k \<and> k < n \<longrightarrow>
               mu_test g ((?it ^^ k) (?it s)) = GSL_CONTINUE \<and> iter + 1 + int k < 100)
        \<and> (if gsl_error (mu_test g ((?it ^^ n) (?it s)))
           then mu_loop g (?it s) (iter + 1) (Suc cnt) = Inl ABORT
           else mu_loop g (?it s) (iter + 1) (Suc cnt)
                  = Inr (gsl_root_fsolver_root g ((?it ^^ n) (?it s)), Suc cnt + n)
                \<and> (mu_test g ((?it ^^ n) (?it s)) = GSL_SUCCESS \<or> 100 \<le> iter + 1 + int n))"
      using ne co lt "1.IH" [OF refl refl refl refl refl _ refl]
      by (simp add: mu_test_def)
    then obtain n where n: "n \<ge> 1"
        "\<forall>k. 1 \<le> k \<and> k < n \<longrightarrow>
               mu_test g ((?it ^^ k) (?it s)) = GSL_CONTINUE \<and> iter + 1 + int k < 100"
        "if gsl_error (mu_test g ((?it ^^ n) (?it s)))
           then mu_loop g (?it s) (iter + 1) (Suc cnt) = Inl ABORT
           else mu_loop g (?it s) (iter + 1) (Suc cnt)
                  = Inr (gsl_root_fsolver_root g ((?it ^^ n) (?it s)), Suc cnt + n)
                \<and> (mu_test g ((?it ^^ n) (?it s)) = GSL_SUCCESS \<or> 100 \<le> iter + 1 + int n)"
      by blast
    have u: "mu_loop g s iter cnt = mu_loop g (?it s) (iter + 1) (Suc cnt)"
      using ne co lt by (subst mu_loop_unfold) simp
    have b: "mu_test g ((?it ^^ k) s) = GSL_CONTINUE \<and> iter + int k < 100"
      if "1 \<le> k \<and> k < Suc n" for k
    proof (cases "k = 1")
      case k1: True
      from co lt show ?thesis unfolding k1 by simp
    next
      case False
      with that obtain j where j: "k = Suc j" "1 \<le> j" "j < n"
        by (cases k) auto
      from n(2) j(2,3) have "mu_test g ((?it ^^ j) (?it s)) = GSL_CONTINUE
                             \<and> iter + 1 + int j < 100"
        by blast
      then show ?thesis unfolding j(1) funpow_Suc_inner by simp
    qed
    have c: "if gsl_error (mu_test g ((?it ^^ Suc n) s))
           then mu_loop g s iter cnt = Inl ABORT
           else mu_loop g s iter cnt
                  = Inr (gsl_root_fsolver_root g ((?it ^^ Suc n) s), cnt + Suc n)
                \<and> (mu_test g ((?it ^^ Suc n) s) = GSL_SUCCESS \<or> 100 \<le> iter + int (Suc n))"
      unfolding funpow_Suc_inner u using n(3) by (auto split: if_splits)
    have n1: "Suc n \<ge> 1" by simp
    from n1 b c show ?thesis by blast
  qed
qed


lemma bisection_set_status:
  "fst (bisection_set F (- 10) 10)
     = (if (F (- 10) < 0 \<and> F 10 < 0) \<or> (F (- 10) > 0 \<and> F 10 > 0)
        then GSL_EINVAL else GSL_SUCCESS)"
  by (simp add: bisection_set_def Let_def)

lemma bisection_set_bracket:
  assumes "\<not> ((F (- 10) < 0 \<and> F 10 < 0) \<or> (F (- 10) > 0 \<and> F 10 > 0))"
  shows "mu_bracket_ok F (snd (bisection_set F (- 10) 10))"
  using assms by (simp add: bisection_set_def Let_def mu_bracket_ok_def)

lemma bisection_iterate_bracket:
  assumes "mu_bracket_ok F st"
  shows "mu_bracket_ok F (bisection_iterate st)"
proof -
  from assms have f: "bs_f st = F"
    and b: "- 10 \<le> bs_x_lower st" "bs_x_lower st \<le> bs_root st"
           "bs_root st \<le> bs_x_upper st" "bs_x_upper st \<le> 10"
    and d: "(bs_f_lower st = F (bs_x_lower st) \<and> bs_f_upper st = F (bs_x_upper st)
          \<and> \<not> (F (bs_x_lower st) < 0 \<and> F (bs_x_upper st) < 0)
          \<and> \<not> (F (bs_x_lower st) > 0 \<and> F (bs_x_upper st) > 0))
         \<or> (bs_x_lower st = bs_x_upper st \<and> F (bs_x_lower st) = 0)"
    by (simp_all add: mu_bracket_ok_def)
  from b have le: "bs_x_lower st \<le> bs_x_upper st" by simp
  from d show ?thesis
  proof
    assume n: "bs_f_lower st = F (bs_x_lower st) \<and> bs_f_upper st = F (bs_x_upper st)
          \<and> \<not> (F (bs_x_lower st) < 0 \<and> F (bs_x_upper st) < 0)
          \<and> \<not> (F (bs_x_lower st) > 0 \<and> F (bs_x_upper st) > 0)"
    with f b le show ?thesis
      unfolding mu_bracket_ok_def bisection_iterate_def Let_def
      by (auto simp: field_simps)
  next
    assume e: "bs_x_lower st = bs_x_upper st \<and> F (bs_x_lower st) = 0"
    with f b show ?thesis
      unfolding mu_bracket_ok_def bisection_iterate_def Let_def
      by auto
  qed
qed

lemma bisection_funpow_bracket:
  "mu_bracket_ok F st \<Longrightarrow> mu_bracket_ok F ((bisection_iterate ^^ k) st)"
  by (induction k) (simp_all add: bisection_iterate_bracket)

lemma test_interval_no_error:
  "lo \<le> hi \<Longrightarrow> \<not> gsl_error (test_interval lo hi 0 (1 / 10 ^ 10))"
  by (simp add: test_interval_def gsl_error_def Let_def)



lemma gsl_bisection_sel:
  "gsl_root_fsolver_set (gsl_bisection gam fd) = bisection_set"
  "gsl_root_fsolver_iterate (gsl_bisection gam fd) = bisection_iterate"
  "gsl_root_fsolver_root (gsl_bisection gam fd) = bs_root"
  "mu_test (gsl_bisection gam fd) s = test_interval (bs_x_lower s) (bs_x_upper s) 0 (1 / 10 ^ 10)"
  "ff_root (gsl_bisection gam fd) inp m = gam 1.5 * fd m - 2 / (3 * Theta inp powr (3 / 2))"
  by (simp_all add: gsl_bisection_def mu_test_def ff_root_def normalization_condition_def)


lemma compute_mu_returns:
  fixes gam fd :: "real \<Rightarrow> real" and iter0 :: int and inp :: rinput
  defines "F \<equiv> ff_root (gsl_bisection gam fd) inp"
  defines "st \<equiv> \<lambda>k. (bisection_iterate ^^ k) (snd (bisection_set F (- 10) 10))"
  defines "tst \<equiv> \<lambda>k. test_interval (bs_x_lower (st k)) (bs_x_upper (st k)) 0 (1 / 10 ^ 10)"
  assumes sc: "\<not> ((F (- 10) < 0 \<and> F 10 < 0) \<or> (F (- 10) > 0 \<and> F 10 > 0))"
  shows "\<exists>n\<ge>1. compute_mu (gsl_bisection gam fd) iter0 inp = Inr (bs_root (st n))
            \<and> int n \<le> max 1 (100 - iter0)
            \<and> (\<forall>k. 1 \<le> k \<and> k < n \<longrightarrow> tst k = GSL_CONTINUE)
            \<and> (tst n = GSL_SUCCESS \<or> 100 \<le> iter0 + int n)
            \<and> mu_bracket_ok F (st n)"
proof -
  let ?g = "gsl_bisection gam fd"
  let ?s0 = "snd (bisection_set F (- 10) 10)"
  define status where "status = fst (bisection_set F (- 10) 10)"
  have sr: "bisection_set F (- 10) 10 = (status, ?s0)"
    by (simp add: status_def)
  from bisection_set_status [of F] sc have ok: "status = GSL_SUCCESS"
    by (simp add: status_def)
  have run: "compute_mu_run ?g iter0 inp = mu_loop ?g ?s0 iter0 0"
    unfolding compute_mu_run_def Let_def gsl_bisection_sel(1) F_def [symmetric]
    by (subst sr) (simp add: ok gsl_error_def)
  have br: "mu_bracket_ok F (st k)" for k
    unfolding st_def by (rule bisection_funpow_bracket) (rule bisection_set_bracket [OF sc])
  have ne: "\<not> gsl_error (tst k)" for k
    unfolding tst_def using br [of k]
    by (intro test_interval_no_error) (simp add: mu_bracket_ok_def)
  from mu_loop_trace [of ?g ?s0 iter0 0] obtain n where n: "n \<ge> 1"
      "\<forall>k. 1 \<le> k \<and> k < n \<longrightarrow>
               mu_test ?g ((gsl_root_fsolver_iterate ?g ^^ k) ?s0) = GSL_CONTINUE
               \<and> iter0 + int k < 100"
      "if gsl_error (mu_test ?g ((gsl_root_fsolver_iterate ?g ^^ n) ?s0))
           then mu_loop ?g ?s0 iter0 0 = Inl ABORT
           else mu_loop ?g ?s0 iter0 0
                  = Inr (gsl_root_fsolver_root ?g ((gsl_root_fsolver_iterate ?g ^^ n) ?s0), 0 + n)
                \<and> (mu_test ?g ((gsl_root_fsolver_iterate ?g ^^ n) ?s0) = GSL_SUCCESS
                    \<or> 100 \<le> iter0 + int n)"
    by blast
  have t: "mu_test ?g ((gsl_root_fsolver_iterate ?g ^^ k) ?s0) = tst k" for k
    by (simp add: gsl_bisection_sel tst_def st_def)
  from n(2) have c: "\<forall>k. 1 \<le> k \<and> k < n \<longrightarrow> tst k = GSL_CONTINUE"
    and lt: "\<forall>k. 1 \<le> k \<and> k < n \<longrightarrow> iter0 + int k < 100"
    unfolding t by blast+
  from n(3) ne [of n] have r: "mu_loop ?g ?s0 iter0 0 = Inr (bs_root (st n), n)"
    and stop: "tst n = GSL_SUCCESS \<or> 100 \<le> iter0 + int n"
    unfolding t by (simp_all add: gsl_bisection_sel st_def)
  have v: "compute_mu ?g iter0 inp = Inr (bs_root (st n))"
    by (simp add: compute_mu_def run r)
  have bnd: "int n \<le> max 1 (100 - iter0)"
  proof (cases "n = 1")
    case True
    then show ?thesis by simp
  next
    case False
    with n(1) have "1 \<le> n - 1 \<and> n - 1 < n" by simp
    with lt have "iter0 + int (n - 1) < 100" by blast
    with n(1) show ?thesis by simp
  qed
  from n(1) v bnd c stop br [of n] show ?thesis by blast
qed





lemma gamma_three_halves_bounds: "1 / 2 \<le> gamma_three_halves x" "gamma_three_halves x < 1"
proof -
  have "1 \<le> pi" using pi_ge_two by linarith
  then have "sqrt 1 \<le> sqrt pi"
    by (simp only: real_sqrt_le_iff)
  then show "1 / 2 \<le> gamma_three_halves x" by (simp add: gamma_three_halves_def)
  have "sqrt pi < sqrt 4"
    using pi_less_4 by (simp only: real_sqrt_less_iff)
  then show "gamma_three_halves x < 1" by (simp add: gamma_three_halves_def)
qed




subsection \<open>The frame of read_bin\<close>

lemma ff_root_fun: "ff_root g inp = (\<lambda>m. normalization_condition g m (Theta inp))"
  by (rule ext) (simp add: ff_root_def)

lemma compute_mu_Theta_only:
  "Theta a = Theta b \<Longrightarrow> compute_mu g i0 a = compute_mu g i0 b"
  by (simp add: compute_mu_def compute_mu_run_def ff_root_fun)

text \<open>
  C10. When \<open>read_bin\<close> returns, the caller's input structure differs from its value
  before the call in the fields \<open>Theta\<close>, \<open>dx\<close>, \<open>xmax\<close>, \<open>nx\<close>, \<open>nl\<close> and \<open>mu\<close> only:
  the first five are those of the structure read from the file, \<open>mu\<close> is the result of
  \<open>compute_mu\<close>, which depends on the loaded \<open>Theta\<close> alone and not on the \<open>mu\<close> stored in
  the file, and every other field keeps its value.
\<close>

theorem read_bin_frame:
  assumes "read_bin g iter0 (Some (in_load, phi_data, SSHF_data)) inp = Inr (inp', arrs)"
  shows "Theta inp' = Theta in_load \<and> dx inp' = dx in_load \<and> xmax inp' = xmax in_load
         \<and> nx inp' = nx in_load \<and> nl inp' = nl in_load
         \<and> compute_mu g iter0 (inp\<lparr>Theta := Theta in_load\<rparr>) = Inr (mu inp')
         \<and> rs inp' = rs inp \<and> mu_lo inp' = mu_lo inp \<and> mu_hi inp' = mu_hi inp
         \<and> nIter inp' = nIter inp \<and> err_min_iter inp' = err_min_iter inp
         \<and> a_mix inp' = a_mix inp \<and> theory_str inp' = theory_str inp
         \<and> phi_file inp' = phi_file inp \<and> nW inp' = nW inp \<and> dyn_dW inp' = dyn_dW inp
         \<and> dyn_Wmax inp' = dyn_Wmax inp \<and> dyn_xtarget inp' = dyn_xtarget inp
         \<and> dyn_adr_file inp' = dyn_adr_file inp
         \<and> qstls_iet_static inp' = qstls_iet_static inp
         \<and> inp' = inp\<lparr>Theta := Theta inp', dx := dx inp', xmax := xmax inp', nx := nx inp',
                        nl := nl inp', mu := mu inp'\<rparr>
         \<and> arr_phi arrs = phi_data \<and> arr_SSHF arrs = SSHF_data"
proof -
  have m: "compute_mu g iter0 (inp\<lparr>Theta := Theta in_load\<rparr>) = compute_mu g iter0 in_load"
    by (rule compute_mu_Theta_only) simp
  from assms show ?thesis
    unfolding m by (auto simp: read_bin_def Let_def split: sum.splits)
qed

lemma c10_powr: "1 \<le> (2::real) powr (3 / 2)" "(2::real) powr (3 / 2) \<le> 4"
proof -
  show "1 \<le> (2::real) powr (3 / 2)" by (rule ge_one_powr_ge_zero) simp_all
  have "(2::real) powr (3 / 2) \<le> 2 powr 2" by (rule powr_mono) simp_all
  then show "(2::real) powr (3 / 2) \<le> 4" by simp
qed

lemma c10_normalization_signs:
  "ff_root gsl_model input_c10_load (- 10) < 0" "0 < ff_root gsl_model input_c10_load 10"
proof -
  define P :: real where "P = 2 powr (3 / 2)"
  have P: "1 \<le> P" "P \<le> 4" unfolding P_def by (rule c10_powr)+
  have lo: "1 / 6 \<le> 2 / (3 * P)" and hi: "2 / (3 * P) \<le> 2 / 3"
    using P by (simp_all add: field_simps)
  have e: "11 \<le> exp (10::real)"
    using exp_ge_add_one_self [of "10::real"] by simp
  have "exp (- 10 :: real) = 1 / exp 10" by (simp add: exp_minus inverse_eq_divide)
  also have "\<dots> \<le> 1 / 11" using e by (simp add: field_simps)
  finally have m: "exp (- 10 :: real) \<le> 1 / 11" .
  have "gamma_three_halves (15 / 10) * exp (- 10) \<le> 1 * (1 / 11)"
    using gamma_three_halves_bounds(2) [of "15 / 10"] m by (intro mult_mono) simp_all
  with lo show "ff_root gsl_model input_c10_load (- 10) < 0"
    by (simp add: gsl_model_def gsl_bisection_sel(5) input_c10_load_def input0_def
          P_def [symmetric])
  have "1 / 2 * 11 \<le> gamma_three_halves (15 / 10) * exp 10"
    using gamma_three_halves_bounds(1) [of "15 / 10"] e by (intro mult_mono) simp_all
  with hi show "0 < ff_root gsl_model input_c10_load 10"
    by (simp add: gsl_model_def gsl_bisection_sel(5) input_c10_load_def input0_def
          P_def [symmetric])
qed

theorem read_bin_frame_witness:
  "\<exists>m. compute_mu gsl_model 0 input_c10_load = Inr m
     \<and> read_bin gsl_model 0 (Some (input_c10_load, [3, 4], [5, 6])) input_c10
         = Inr (input_c10\<lparr>Theta := 2, dx := 1 / 2, xmax := 1, nx := 2, nl := 1, mu := m\<rparr>,
                \<lparr>arr_xx = [1 / 4, 3 / 4], arr_phi = [3, 4], arr_SSHF = [5, 6]\<rparr>)
     \<and> rs (input_c10\<lparr>Theta := 2, dx := 1 / 2, xmax := 1, nx := 2, nl := 1, mu := m\<rparr>) = 2"
proof -
  from c10_normalization_signs
  have nw: "\<not> ((ff_root (gsl_bisection gamma_three_halves exp) input_c10_load (- 10) < 0
                \<and> ff_root (gsl_bisection gamma_three_halves exp) input_c10_load 10 < 0)
           \<or> (ff_root (gsl_bisection gamma_three_halves exp) input_c10_load (- 10) > 0
                \<and> ff_root (gsl_bisection gamma_three_halves exp) input_c10_load 10 > 0))"
    unfolding gsl_model_def by simp
  from compute_mu_returns [OF nw, of 0] obtain m
    where m: "compute_mu gsl_model 0 input_c10_load = Inr m"
    unfolding gsl_model_def by blast
  have r: "read_bin gsl_model 0 (Some (input_c10_load, [3, 4], [5, 6])) input_c10
     = Inr (input_c10\<lparr>Theta := 2, dx := 1 / 2, xmax := 1, nx := 2, nl := 1, mu := m\<rparr>,
            \<lparr>arr_xx = [1 / 4, 3 / 4], arr_phi = [3, 4], arr_SSHF = [5, 6]\<rparr>)"
    by (simp add: read_bin_def Let_def m)
       (simp add: input_c10_load_def input0_def wave_vector_grid_def numeral_2_eq_2 fl_eval)
  from read_bin_frame [OF r]
  have "rs (input_c10\<lparr>Theta := 2, dx := 1 / 2, xmax := 1, nx := 2, nl := 1, mu := m\<rparr>)
          = rs input_c10"
    by blast
  with m r show ?thesis by (simp add: input_c10_def input0_def)
qed

subsection \<open>The slots of the fixed-kernel tensor\<close>

text \<open>The steps of one thread on one slot: with the flag set, \<open>nx\<close> stores and the move
  to the next slot amount to one call of \<open>write_dynamic_adr_iet_fixed\<close>; with the flag
  cleared, the slot is left as it is.\<close>

lemma omp_thread_stores:
  assumes "th_tested th" "th_compute_fixed th" "th_slots th = (ii, jj) # rest" "th_kk th = 0"
    and "k \<le> nat (nx inp)"
  shows "((\<lambda>(t, a). omp_thread_step lev2 WW xx inp t a) ^^ k) (th, psi_re_fixed)
     = (th\<lparr>th_kk := k\<rparr>,
        foldl (\<lambda>a kk. a[idx3 ii jj kk (nat (nx inp)) (nat (nW inp))
                          := Some (lev2 (WW ! jj) (xx ! ii) ! kk)])
          psi_re_fixed [0..<k])"
  using assms(5)
proof (induction k)
  case 0
  with assms(4) show ?case by simp
next
  case (Suc k)
  then have k: "k < nat (nx inp)" by simp
  with Suc have IH: "((\<lambda>(t, a). omp_thread_step lev2 WW xx inp t a) ^^ k) (th, psi_re_fixed)
     = (th\<lparr>th_kk := k\<rparr>,
        foldl (\<lambda>a kk. a[idx3 ii jj kk (nat (nx inp)) (nat (nW inp))
                          := Some (lev2 (WW ! jj) (xx ! ii) ! kk)])
          psi_re_fixed [0..<k])"
    by simp
  show ?case
    unfolding funpow.simps o_apply IH
    using assms(1-3) k by (simp add: omp_thread_step_def)
qed

lemma omp_thread_slot:
  assumes "th_tested th" "th_compute_fixed th" "th_slots th = (ii, jj) # rest" "th_kk th = 0"
  shows "((\<lambda>(t, a). omp_thread_step lev2 WW xx inp t a) ^^ Suc (nat (nx inp))) (th, psi_re_fixed)
     = (th\<lparr>th_slots := rest\<rparr>,
        write_dynamic_adr_iet_fixed (lev2 (WW ! jj) (xx ! ii)) psi_re_fixed ii jj inp)"
  unfolding funpow.simps o_apply omp_thread_stores [OF assms order_refl]
  using assms by (simp add: omp_thread_step_def write_dynamic_adr_iet_fixed_def)

lemma omp_thread_slot_read:
  assumes "th_tested th" "\<not> th_compute_fixed th" "th_slots th = (ii, jj) # rest" "th_kk th = 0"
  shows "omp_thread_step lev2 WW xx inp th psi_re_fixed = (th\<lparr>th_slots := rest\<rparr>, psi_re_fixed)"
  using assms by (simp add: omp_thread_step_def)

lemma c6_dims: "nat (nx input_c6) = 2" "nat (nW input_c6) = 1"
  by (simp_all add: input_c6_def input0_def)

lemma c6_init: "pd_fixed0 input_c6 = [Some INFINITY, Some INFINITY, None, None]"
  by (simp add: pd_fixed0_def pd_init_fixed_def malloc_cells_def c6_dims idx2_def
        numeral_2_eq_2 upt_rec [of 0] upt_rec [of 1] upt_rec [of "Suc 0"])

lemmas c6_eval = compute_dynamic_adr_iet_re_lev1_fixed_def omp_run_def omp_step_def
  omp_thread_step_def omp_thread_start_def c6_init c6_dims lev2_c6_def WW_c6_def xx_c6_def
  idx3_def Let_def

text \<open>After the initialisation both slots hold the sentinel.\<close>

lemma c6_init_sentinel:
  "slot_sentinel input_c6 (pd_fixed0 input_c6) 0 0"
  "slot_sentinel input_c6 (pd_fixed0 input_c6) 1 0"
  by (simp_all add: slot_sentinel_def c6_init c6_dims idx3_def numeral_2_eq_2)


text \<open>Two threads that both execute the test before any store: again both slots are
  stored.\<close>

lemma c6_early:
  "compute_dynamic_adr_iet_re_lev1_fixed lev2_c6 WW_c6 xx_c6 input_c6 [[0], [1]] sched_c6_early
      (pd_fixed0 input_c6)
   = ([\<lparr>th_tested = True, th_compute_fixed = True, th_slots = [], th_kk = 0\<rparr>,
       \<lparr>th_tested = True, th_compute_fixed = True, th_slots = [], th_kk = 0\<rparr>],
      [Some (Num (1 / 2)), Some (Num (3 / 2)), Some (Num (- 1 / 2)), Some (Num (- 3 / 2))])"
  by (simp add: c6_eval sched_c6_early_def)



subsection \<open>Loading the fixed-kernel file\<close>

lemma le_bytes_length: "length (le_bytes k v) = k"
  by (induction k arbitrary: v) simp_all

lemma le_value_bytes: "v < 256 ^ k \<Longrightarrow> le_value (le_bytes k v) = v"
proof (induction k arbitrary: v)
  case 0
  then show ?case by simp
next
  case (Suc k)
  have "v div 256 < 256 ^ k" using Suc.prems by (simp add: less_mult_imp_div_less)
  then have "le_value (le_bytes k (v div 256)) = v div 256" by (rule Suc.IH)
  moreover have "unat (of_nat (v mod 256) :: byte) = v mod 256"
    by (simp add: unat_of_nat)
  ultimately show ?case by simp
qed

lemma dec32_enc32: "dec32 (enc32 w) = w"
proof -
  have "unat w < 2 ^ LENGTH(32)" by (rule unsigned_less)
  then have "unat w < 256 ^ 4" by simp
  then show ?thesis by (simp add: dec32_def enc32_def le_value_bytes)
qed

lemma dec64_enc64: "dec64 (enc64 w) = w"
proof -
  have "unat w < 2 ^ LENGTH(64)" by (rule unsigned_less)
  then have "unat w < 256 ^ 8" by simp
  then show ?thesis by (simp add: dec64_def enc64_def le_value_bytes)
qed

lemma enc_length: "length (enc32 w) = 4" "length (enc64 v) = 8"
  by (simp_all add: enc32_def enc64_def le_bytes_length)


lemma fread_exact:
  assumes "0 < sz" and "length xs = sz * n"
  shows "fread sz n \<lparr>f_data = xs @ rest, f_eof = e\<rparr> = (xs, n, \<lparr>f_data = rest, f_eof = e\<rparr>)"
  using assms by (simp add: fread_def Let_def)

lemma fread_int_exact:
  "fread_int old \<lparr>f_data = enc32 w @ rest, f_eof = e\<rparr> = (w, 1, \<lparr>f_data = rest, f_eof = e\<rparr>)"
proof -
  have "fread 4 1 \<lparr>f_data = enc32 w @ rest, f_eof = e\<rparr>
          = (enc32 w, 1, \<lparr>f_data = rest, f_eof = e\<rparr>)"
    by (rule fread_exact) (simp_all add: enc_length)
  then show ?thesis
    by (simp add: fread_int_def store_def enc_length dec32_enc32)
qed

lemma fread_double_exact:
  "fread_double old \<lparr>f_data = enc64 w @ rest, f_eof = e\<rparr> = (w, 1, \<lparr>f_data = rest, f_eof = e\<rparr>)"
proof -
  have "fread 8 1 \<lparr>f_data = enc64 w @ rest, f_eof = e\<rparr>
          = (enc64 w, 1, \<lparr>f_data = rest, f_eof = e\<rparr>)"
    by (rule fread_exact) (simp_all add: enc_length)
  then show ?thesis
    by (simp add: fread_double_def store_def enc_length dec64_enc64)
qed

lemma read_header_exact:
  "read_header h0 \<lparr>f_data = write_header inp @ rest, f_eof = e\<rparr>
     = (header_of inp, 8, \<lparr>f_data = rest, f_eof = e\<rparr>)"
  by (simp add: read_header_def write_header_def header_of_def fread_int_exact fread_double_exact)

lemma concat_enc64_length: "length (concat (map enc64 xs)) = 8 * length xs"
  by (induction xs) (simp_all add: enc_length)

lemma drop_concat_enc64:
  "i \<le> length xs \<Longrightarrow> drop (8 * i) (concat (map enc64 xs)) = concat (map enc64 (drop i xs))"
proof (induction xs arbitrary: i)
  case Nil
  then show ?case by simp
next
  case (Cons x xs)
  show ?case
  proof (cases i)
    case 0
    then show ?thesis by simp
  next
    case (Suc j)
    with Cons.prems have "j \<le> length xs" by simp
    from Cons.IH [OF this] Suc show ?thesis by (simp add: enc_length)
  qed
qed

lemma item_concat_enc64:
  assumes "i < length xs"
  shows "dec64 (take 8 (drop (8 * i) (concat (map enc64 xs)))) = xs ! i"
proof -
  have "drop (8 * i) (concat (map enc64 xs)) = concat (map enc64 (drop i xs))"
    using assms by (intro drop_concat_enc64) simp
  also have "drop i xs = xs ! i # drop (Suc i) xs"
    using assms by (simp add: Cons_nth_drop_Suc)
  finally show ?thesis by (simp add: enc_length dec64_enc64)
qed

lemma fread_doubles_exact:
  assumes "length a = n"
  shows "fread_doubles n \<lparr>f_data = write_doubles n a @ rest, f_eof = e\<rparr>
           = (a, n, \<lparr>f_data = rest, f_eof = e\<rparr>)"
proof -
  let ?bs = "concat (map enc64 a)"
  have w: "write_doubles n a = ?bs" using assms by (simp add: write_doubles_def)
  have "fread 8 n \<lparr>f_data = ?bs @ rest, f_eof = e\<rparr> = (?bs, n, \<lparr>f_data = rest, f_eof = e\<rparr>)"
    by (rule fread_exact) (simp_all add: concat_enc64_length assms)
  moreover have "map (\<lambda>i. dec64 (take 8 (drop (8 * i) ?bs))) [0..<n] = a"
  proof (rule nth_equalityI)
    show "length (map (\<lambda>i. dec64 (take 8 (drop (8 * i) ?bs))) [0..<n]) = length a"
      using assms by simp
    fix i
    assume "i < length (map (\<lambda>i. dec64 (take 8 (drop (8 * i) ?bs))) [0..<n])"
    then have "i < length a" using assms by simp
    then show "map (\<lambda>i. dec64 (take 8 (drop (8 * i) ?bs))) [0..<n] ! i = a ! i"
      using assms by (simp add: item_concat_enc64)
  qed
  ultimately show ?thesis unfolding w by (simp add: fread_doubles_def)
qed

lemma read_arrays_exact:
  assumes "length a1 = n" "length a2 = n" "length a3 = n" "length a4 = n"
  shows "read_arrays n \<lparr>f_data = write_doubles n a1 @ write_doubles n a2 @ write_doubles n a3
                               @ write_doubles n a4 @ rest, f_eof = e\<rparr>
           = ((a1, a2, a3, a4), 4 * n, \<lparr>f_data = rest, f_eof = e\<rparr>)"
  using assms by (simp add: read_arrays_def fread_doubles_exact)

lemma DBL_TOL_nonneg: "0 \<le> DBL_TOL"
  by (simp add: DBL_TOL_def)

lemma check_header_same:
  "check_dynamic_qstls_iet dval (header_of inp) inp 8 8 fid True True False = Inr fid"
  using DBL_TOL_nonneg by (simp add: check_dynamic_qstls_iet_def header_of_def)

lemma check_eof_probe:
  assumes "int it_read = it_expected"
  shows "check_dynamic_qstls_iet dval h inp it_read it_expected
           \<lparr>f_data = extra, f_eof = False\<rparr> False True True
         = (if length extra < 4 then Inr \<lparr>f_data = drop 4 extra, f_eof = True\<rparr>
            else Inl EofExpected)"
  using assms by (simp add: check_dynamic_qstls_iet_def fread_def Let_def)

lemma read_written_file:
  assumes p: "0 \<le> sint (nx inp) * sint (nW inp)"
    and len: "length phi_re = nat (sint (nx inp) * sint (nW inp))"
      "length phi_im = nat (sint (nx inp) * sint (nW inp))"
      "length psi_re = nat (sint (nx inp) * sint (nW inp))"
      "length psi_im = nat (sint (nx inp) * sint (nW inp))"
  shows "read_fixed_dynamic_qstls_iet dval h0
           (Some (write_fixed_dynamic_qstls_iet phi_re phi_im psi_re psi_im inp @ extra)) inp
         = (if length extra < 4 then Inr (phi_re, phi_im, psi_re, psi_im) else Inl EofExpected)"
proof -
  let ?n = "nat (sint (nx inp) * sint (nW inp))"
  have cnt: "int (8 + 4 * ?n) = 4 * sint (nx inp) * sint (nW inp) + 8"
    using p by simp
  have h: "nx_file (header_of inp) = nx inp" "nW_file (header_of inp) = nW inp"
    by (simp_all add: header_of_def)
  show ?thesis
    unfolding read_fixed_dynamic_qstls_iet_def write_fixed_dynamic_qstls_iet_def Let_def
    by (simp add: read_header_exact check_header_same h read_arrays_exact [OF len]
          check_eof_probe [OF cnt])
qed

lemma read_changed_dx:
  assumes "\<bar>dval (dx inp) - dval (dx inp')\<bar> > DBL_TOL"
  shows "read_fixed_dynamic_qstls_iet dval h0
           (Some (write_fixed_dynamic_qstls_iet phi_re phi_im psi_re psi_im inp @ extra)) inp'
         = Inl GridIncompatible"
  unfolding read_fixed_dynamic_qstls_iet_def write_fixed_dynamic_qstls_iet_def Let_def
  using assms
  by (simp add: read_header_exact check_dynamic_qstls_iet_def header_of_def)

text \<open>
  C5. A file that \<open>write_fixed_dynamic_qstls_iet\<close> produced for an input, followed by one
  more byte, is loaded for the same input without error and yields the four arrays:
  the end-of-file test reads a four-byte \<open>int\<close> and then asks \<open>feof\<close>, so up to three
  bytes after the fourth array go unnoticed (\<open>read_written_file\<close> is the general
  statement; with no byte after the arrays it is the round trip, and with four or more
  the load fails). A header whose \<open>dx\<close> differs from the input's by more than the
  tolerance is refused (\<open>read_changed_dx\<close>).
\<close>

theorem read_trailing_byte_accepted:
  "read_fixed_dynamic_qstls_iet dval_c5 header_c5
     (Some (write_fixed_dynamic_qstls_iet [1] [2] [3] [4] minput_c5 @ [0])) minput_c5
   = Inr ([1], [2], [3], [4])"
proof -
  have n: "sint (nx minput_c5) * sint (nW minput_c5) = 1"
    by (simp add: minput_c5_def)
  have "read_fixed_dynamic_qstls_iet dval_c5 header_c5
     (Some (write_fixed_dynamic_qstls_iet [1] [2] [3] [4] minput_c5 @ [0])) minput_c5
     = (if length [0 :: byte] < 4 then Inr ([1], [2], [3], [4]) else Inl EofExpected)"
    by (rule read_written_file) (simp_all add: n)
  then show ?thesis by simp
qed

end
